theory Spec2Isabelle
  imports Complex_Main "HOL-Library.AList"
begin

section \<open>The discussion-flow moderation engine\<close>

text \<open>
  A shallow embedding of the moderation engine (class \<open>DiscussionEngine\<close>, function
  \<open>calculateDominance\<close>) and of the types it works on (\<open>types.ts\<close>).

  Modelling decisions:
  \<^item> A finite TypeScript \<open>number\<close> is a \<open>real\<close> and its arithmetic is exact. This is what
    IEEE doubles compute as long as the operands and results are integers of magnitude
    at most \<open>2^53\<close>; on other numbers the code rounds each sum and the model does not, so
    a theorem that depends on the exact value of a sum asks for integer seconds. The
    seconds of an event are finite numbers. \<open>turnIndex\<close> is a \<open>nat\<close>: the code only ever
    stores \<open>0\<close>, an index found by \<open>indexOf\<close>, or a successor in it.
  \<^item> \<open>totalTalkTime\<close> and \<open>dominanceScore\<close> can become \<open>NaN\<close> (see below), so they are a
    \<open>jsnum\<close>: a number or \<open>NaN\<close>.
  \<^item> \<open>string | null\<close> and \<open>number | null\<close> are \<open>option\<close>s.
  \<^item> \<open>talkTime\<close> is a plain object. Its own properties are an association list, with
    \<open>AList.update\<close> for the spread-and-define \<open>{...m, [k]: v}\<close> and \<open>AList.delete\<close> for
    \<open>delete m[k]\<close>. A read \<open>m[k]\<close> walks the prototype chain: for a name with no own
    property it finds the member of \<open>Object.prototype\<close> of that name, if there is one
    (\<open>getProp\<close>). Adding seconds to such a member gives a string, which is then stored in
    \<open>talkTime\<close>, and subtracting one from \<open>totalTalkTime\<close> gives \<open>NaN\<close>; so the values of
    \<open>talkTime\<close> are a \<open>jsval\<close>: a number, such a string, or an inherited member.
  \<^item> The class has two private fields, \<open>ctx\<close> and \<open>state\<close>; the engine is a record of both
    and every method takes the engine and returns the engine it leaves behind.
\<close>

subsection \<open>Data model (\<open>types.ts\<close>)\<close>

datatype DiscussionState = MONITORING | IMBALANCE | NUDGE | STRUCTURED | PAUSE | CHECKIN

text \<open>The values that a read of \<open>talkTime[k]\<close> can give, other than \<open>undefined\<close>: a number; a
  string (the result of adding a number to a value that is not one: it always starts
  with the text of a function or of an object, so it converts to \<open>NaN\<close> and is truthy); a
  member inherited from \<open>Object.prototype\<close> (a function, or for \<open>__proto__\<close> the prototype
  object itself: truthy, and \<open>NaN\<close> as a number).\<close>

datatype jsval = Num real | Str | Proto

datatype jsnum = Number real | NaN

record EngineContext =
  speakers :: "string list"
  activeSpeaker :: "string option"
  quietSpeaker :: "string option"
  talkTime :: "(string \<times> jsval) list"
  totalSeconds :: real
  silenceSeconds :: real
  totalTalkTime :: jsnum
  currentMonologueSeconds :: real
  autoMode :: bool
  quietMode :: bool
  imbalanceScoreThreshold :: real
  imbalanceHoldSeconds :: real
  nudgeHoldSeconds :: real
  turnHoldSeconds :: real
  imbalanceSince :: "real option"
  nudgeSince :: "real option"
  stateSince :: real
  turnSince :: real
  turnOrder :: "string list"
  turnIndex :: nat
  dominanceScore :: jsnum
  imbalanceFlag :: bool

text \<open>The event type; the tag \<open>CHECKIN\<close> of the event is \<open>CHECKIN_EVENT\<close> here, since the
  phase of that name is a constructor already.\<close>

datatype DiscussionEvent =
    SPEAKER_SET string
  | SILENCE
  | TICK real
  | NEXT_TURN
  | SET_QUIET_SPEAKER "string option"
  | SET_AUTO_MODE bool
  | SET_QUIET_MODE bool
  | TURNS_COMPLETE
  | PAUSE_DONE
  | CHECKIN_EVENT bool
  | ADD_SPEAKER string
  | REMOVE_SPEAKER string
  | SET_TALK_TIME string real
  | SET_SILENCE real
  | FORCE_STATE DiscussionState

record DiscussionEngine =
  ctx :: EngineContext
  state :: DiscussionState

subsection \<open>The dominance scorer\<close>

text \<open>The scorer on talk times that are numbers. \<open>talkTime[s] || 0\<close>: a missing entry reads
  as 0 (and so does an entry that is 0).\<close>

definition timeOr0 :: "(string \<times> real) list \<Rightarrow> string \<Rightarrow> real" where
  "timeOr0 tt s = (case map_of tt s of None \<Rightarrow> 0 | Some v \<Rightarrow> v)"

text \<open>\<open>Math.max(...times)\<close>. On no argument JavaScript gives \<open>-Infinity\<close>; the scorer
  returns before it gets there, so the first equation is never used by it.\<close>

fun Math_max :: "real list \<Rightarrow> real" where
  "Math_max [] = 0"
| "Math_max [x] = x"
| "Math_max (x # y # ys) = max x (Math_max (y # ys))"

definition calculateDominance :: "(string \<times> real) list \<Rightarrow> string list \<Rightarrow> real \<Rightarrow> real" where
  "calculateDominance tt sp totalT =
     (if length sp = 0 \<or> totalT \<le> 0 then 0
      else let times = map (timeOr0 tt) sp;
               mx = Math_max times;
               mean = totalT / real (length sp)
           in (mx - mean) / (totalT + 1 / 1000000))"

subsection \<open>Reading and writing \<open>talkTime\<close>\<close>

text \<open>The names of the members of \<open>Object.prototype\<close>, which every plain object inherits.\<close>

definition inheritedNames :: "string list" where
  "inheritedNames =
     [''constructor'', ''hasOwnProperty'', ''isPrototypeOf'', ''propertyIsEnumerable'',
      ''toLocaleString'', ''toString'', ''valueOf'', ''__proto__'',
      ''__defineGetter__'', ''__defineSetter__'', ''__lookupGetter__'', ''__lookupSetter__'']"

text \<open>\<open>talkTime[k]\<close>; \<open>None\<close> is \<open>undefined\<close>.\<close>

definition getProp :: "(string \<times> jsval) list \<Rightarrow> string \<Rightarrow> jsval option" where
  "getProp tt k =
     (case map_of tt k of
        Some v \<Rightarrow> Some v
      | None \<Rightarrow> if k \<in> set inheritedNames then Some Proto else None)"

text \<open>\<open>x || 0\<close> for a read \<open>x\<close>: \<open>undefined\<close> and the number 0 give 0, every other value
  is truthy and gives itself.\<close>

definition orZero :: "jsval option \<Rightarrow> jsval" where
  "orZero x = (case x of None \<Rightarrow> Num 0 | Some v \<Rightarrow> v)"

text \<open>\<open>v + dt\<close> for a number \<open>dt\<close>: a sum of numbers, or a string concatenation.\<close>

definition plusSeconds :: "jsval \<Rightarrow> real \<Rightarrow> jsval" where
  "plusSeconds v dt = (case v of Num r \<Rightarrow> Num (r + dt) | _ \<Rightarrow> Str)"

text \<open>The conversion to a number that \<open>-\<close> and \<open>Math.max\<close> apply to their operands.\<close>

definition toNumber :: "jsval \<Rightarrow> jsnum" where
  "toNumber v = (case v of Num r \<Rightarrow> Number r | _ \<Rightarrow> NaN)"

definition addNum :: "jsnum \<Rightarrow> real \<Rightarrow> jsnum" where
  "addNum x d = (case x of Number r \<Rightarrow> Number (r + d) | NaN \<Rightarrow> NaN)"

definition subNum :: "jsnum \<Rightarrow> jsnum \<Rightarrow> jsnum" where
  "subNum x y = (case (x, y) of (Number r, Number s) \<Rightarrow> Number (r - s) | _ \<Rightarrow> NaN)"

text \<open>\<open>Math.max(0, x)\<close>, \<open>x <= d\<close> and \<open>x >= d\<close>; a comparison with \<open>NaN\<close> is false.\<close>

definition maxZero :: "jsnum \<Rightarrow> jsnum" where
  "maxZero x = (case x of Number r \<Rightarrow> Number (max 0 r) | NaN \<Rightarrow> NaN)"

definition leNum :: "jsnum \<Rightarrow> real \<Rightarrow> bool" where
  "leNum x d = (case x of Number r \<Rightarrow> r \<le> d | NaN \<Rightarrow> False)"

definition geNum :: "jsnum \<Rightarrow> real \<Rightarrow> bool" where
  "geNum x d = (case x of Number r \<Rightarrow> d \<le> r | NaN \<Rightarrow> False)"

text \<open>The assignment \<open>m[k] = v\<close>, as the constructor and the reset of \<open>setState\<close> use it on an
  object they build from \<open>{}\<close>. It sets an own property, except for \<open>__proto__\<close>: that name
  is an accessor of \<open>Object.prototype\<close>, whose setter ignores a number, so that no own
  property appears (unlike \<open>{...m, [k]: v}\<close>, which defines one for every name).\<close>

definition assignProp :: "string \<Rightarrow> jsval \<Rightarrow> (string \<times> jsval) list \<Rightarrow> (string \<times> jsval) list" where
  "assignProp k v tt =
     (if k = ''__proto__'' \<and> map_of tt k = None then tt else AList.update k v tt)"

text \<open>The numbers of a list of values; \<open>None\<close> when one of them is not a number.\<close>

fun numbersOf :: "jsval list \<Rightarrow> real list option" where
  "numbersOf [] = Some []"
| "numbersOf (v # vs) =
     (case (v, numbersOf vs) of (Num r, Some rs) \<Rightarrow> Some (r # rs) | _ \<Rightarrow> None)"

text \<open>\<open>calculateDominance\<close> as the engine calls it, on the values that \<open>talkTime\<close> and
  \<open>totalTalkTime\<close> can hold: \<open>Math.max\<close> of a value that is not a number is \<open>NaN\<close>, and so
  is every difference and quotient of \<open>NaN\<close>. On numbers it is \<open>calculateDominance\<close>
  (lemma \<open>calculateDominanceJS_numbers\<close>).\<close>

definition calculateDominanceJS :: "(string \<times> jsval) list \<Rightarrow> string list \<Rightarrow> jsnum \<Rightarrow> jsnum" where
  "calculateDominanceJS tt sp totalT =
     (if length sp = 0 \<or> leNum totalT 0 then Number 0
      else let times = map (\<lambda>s. orZero (getProp tt s)) sp in
           case (numbersOf times, totalT) of
             (Some ts, Number t) \<Rightarrow>
               (let mx = Math_max ts;
                    mean = t / real (length sp)
                in Number ((mx - mean) / (t + 1 / 1000000)))
           | _ \<Rightarrow> NaN)"

subsection \<open>The engine\<close>

text \<open>The constructor. Of the overrides it reads \<open>autoMode\<close> and
  \<open>imbalanceScoreThreshold\<close> only (\<open>??\<close> takes the default on a missing one).\<close>

definition zeroTalkTime :: "string list \<Rightarrow> (string \<times> jsval) list" where
  "zeroTalkTime sp = fold (\<lambda>s m. assignProp s (Num 0) m) sp []"

definition construct :: "string list \<Rightarrow> bool option \<Rightarrow> real option \<Rightarrow> DiscussionEngine" where
  "construct sp autoOpt thresholdOpt =
     \<lparr> ctx = \<lparr> speakers = sp,
               activeSpeaker = None,
               quietSpeaker = None,
               talkTime = zeroTalkTime sp,
               totalSeconds = 0,
               silenceSeconds = 0,
               totalTalkTime = Number 0,
               currentMonologueSeconds = 0,
               autoMode = (case autoOpt of None \<Rightarrow> True | Some b \<Rightarrow> b),
               quietMode = False,
               imbalanceScoreThreshold = (case thresholdOpt of None \<Rightarrow> 35 / 100 | Some t \<Rightarrow> t),
               imbalanceHoldSeconds = 15,
               nudgeHoldSeconds = 15,
               turnHoldSeconds = 60,
               imbalanceSince = None,
               nudgeSince = None,
               stateSince = 0,
               turnSince = 0,
               turnOrder = [],
               turnIndex = 0,
               dominanceScore = Number 0,
               imbalanceFlag = False \<rparr>,
       state = MONITORING \<rparr>"

definition updateMetrics :: "DiscussionEngine \<Rightarrow> DiscussionEngine" where
  "updateMetrics e =
     (let c = ctx e;
          score = calculateDominanceJS (talkTime c) (speakers c) (totalTalkTime c);
          isGracePeriod = totalSeconds c < 15
      in if state e = STRUCTURED \<or> state e = PAUSE \<or> state e = NUDGE \<or> state e = CHECKIN
            \<or> quietMode c \<or> isGracePeriod
         then e\<lparr>ctx := c\<lparr>dominanceScore := score, imbalanceFlag := False\<rparr>\<rparr>
         else e\<lparr>ctx := c\<lparr>dominanceScore := score,
                          imbalanceFlag := (geNum score (imbalanceScoreThreshold c)
                                            \<or> 15 \<le> currentMonologueSeconds c)\<rparr>\<rparr>)"

text \<open>\<open>order[0] || null\<close>: null on an empty list, and on a first name that is the empty
  string (which is falsy).\<close>

definition firstOrNull :: "string list \<Rightarrow> string option" where
  "firstOrNull order = (case order of [] \<Rightarrow> None | s # _ \<Rightarrow> if s = [] then None else Some s)"

definition setState :: "DiscussionState \<Rightarrow> DiscussionEngine \<Rightarrow> DiscussionEngine" where
  "setState next e =
     (let prevState = state e in
      if prevState = next then e
      else
        let c = ctx e;
            c1 = (case next of
                    MONITORING \<Rightarrow>
                      (if prevState = CHECKIN
                       then c\<lparr>totalSeconds := 0, totalTalkTime := Number 0,
                              currentMonologueSeconds := 0, silenceSeconds := 0,
                              imbalanceSince := None, imbalanceFlag := False,
                              dominanceScore := Number 0,
                              talkTime := zeroTalkTime (speakers c)\<rparr>
                       else c)\<lparr>activeSpeaker := None\<rparr>
                  | STRUCTURED \<Rightarrow>
                      c\<lparr>turnOrder := speakers c, turnIndex := 0,
                        activeSpeaker := firstOrNull (speakers c),
                        turnSince := totalSeconds c,
                        currentMonologueSeconds := 0\<rparr>
                  | PAUSE \<Rightarrow>
                      c\<lparr>activeSpeaker := None, silenceSeconds := 0,
                        currentMonologueSeconds := 0\<rparr>
                  | CHECKIN \<Rightarrow>
                      c\<lparr>activeSpeaker := None, currentMonologueSeconds := 0\<rparr>
                  | _ \<Rightarrow> c)
        in updateMetrics \<lparr>ctx = c1\<lparr>stateSince := totalSeconds c1\<rparr>, state = next\<rparr>)"

definition nextTurn :: "DiscussionEngine \<Rightarrow> DiscussionEngine" where
  "nextTurn e =
     (if state e \<noteq> STRUCTURED then e
      else
        let c = (ctx e)\<lparr>turnIndex := turnIndex (ctx e) + 1\<rparr> in
        if length (turnOrder c) \<le> turnIndex c
        then setState PAUSE (e\<lparr>ctx := c\<rparr>)
        else e\<lparr>ctx := c\<lparr>activeSpeaker := Some (turnOrder c ! turnIndex c),
                         turnSince := totalSeconds c,
                         currentMonologueSeconds := 0\<rparr>\<rparr>)"

definition autoAdvanceIfNeeded :: "DiscussionEngine \<Rightarrow> DiscussionEngine" where
  "autoAdvanceIfNeeded e =
     (if \<not> autoMode (ctx e) then e
      else
        let c = ctx e; now = totalSeconds c in
        case state e of
          MONITORING \<Rightarrow>
            if quietMode c then e\<lparr>ctx := c\<lparr>imbalanceSince := None\<rparr>\<rparr>
            else if imbalanceFlag c then
              (let since = (case imbalanceSince c of None \<Rightarrow> now | Some t \<Rightarrow> t) in
               if imbalanceHoldSeconds c \<le> now - since
               then setState IMBALANCE (e\<lparr>ctx := c\<lparr>imbalanceSince := None\<rparr>\<rparr>)
               else e\<lparr>ctx := c\<lparr>imbalanceSince := Some since\<rparr>\<rparr>)
            else e\<lparr>ctx := c\<lparr>imbalanceSince := None\<rparr>\<rparr>
        | IMBALANCE \<Rightarrow> if 15 \<le> now - stateSince c then setState NUDGE e else e
        | NUDGE \<Rightarrow> if nudgeHoldSeconds c \<le> now - stateSince c then setState STRUCTURED e else e
        | STRUCTURED \<Rightarrow>
            if 0 < length (turnOrder c) \<and> turnHoldSeconds c \<le> now - turnSince c
            then nextTurn e else e
        | PAUSE \<Rightarrow> if 20 \<le> now - stateSince c then setState CHECKIN e else e
        | CHECKIN \<Rightarrow> if 20 \<le> now - stateSince c then setState MONITORING e else e)"

text \<open>\<open>turnOrder.indexOf(name)\<close>: the first position of the name, \<open>None\<close> for \<open>-1\<close>.\<close>

fun indexOf :: "string list \<Rightarrow> string \<Rightarrow> nat option" where
  "indexOf [] n = None"
| "indexOf (x # xs) n = (if x = n then Some 0 else map_option Suc (indexOf xs n))"

text \<open>The guard of the \<open>TICK\<close> case,
  \<open>activeSpeaker && talkTime[activeSpeaker] !== undefined\<close>: the active speaker is
  neither null nor the empty string, and \<open>talkTime\<close> has a property of that name, own or
  inherited.\<close>

definition speaking :: "EngineContext \<Rightarrow> bool" where
  "speaking c = (case activeSpeaker c of
                   None \<Rightarrow> False
                 | Some a \<Rightarrow> a \<noteq> [] \<and> getProp (talkTime c) a \<noteq> None)"

fun send :: "DiscussionEvent \<Rightarrow> DiscussionEngine \<Rightarrow> DiscussionEngine" where
  "send (SPEAKER_SET name) e =
     (let c = (if activeSpeaker (ctx e) \<noteq> Some name
               then (ctx e)\<lparr>currentMonologueSeconds := 0\<rparr> else ctx e) in
      if state e = STRUCTURED then
        (case indexOf (turnOrder c) name of
           Some idx \<Rightarrow> e\<lparr>ctx := c\<lparr>turnIndex := idx, activeSpeaker := Some name,
                                   turnSince := totalSeconds c\<rparr>\<rparr>
         | None \<Rightarrow> e\<lparr>ctx := c\<rparr>)
      else e\<lparr>ctx := c\<lparr>activeSpeaker := Some name\<rparr>\<rparr>)"
| "send (SET_QUIET_SPEAKER name) e = e\<lparr>ctx := (ctx e)\<lparr>quietSpeaker := name\<rparr>\<rparr>"
| "send (SET_AUTO_MODE enabled) e = e\<lparr>ctx := (ctx e)\<lparr>autoMode := enabled\<rparr>\<rparr>"
| "send (SET_QUIET_MODE enabled) e = updateMetrics (e\<lparr>ctx := (ctx e)\<lparr>quietMode := enabled\<rparr>\<rparr>)"
| "send SILENCE e = e\<lparr>ctx := (ctx e)\<lparr>activeSpeaker := None, currentMonologueSeconds := 0\<rparr>\<rparr>"
| "send (TICK dt) e =
     (let c = (ctx e)\<lparr>totalSeconds := totalSeconds (ctx e) + dt\<rparr>;
          c1 = (if speaking c
                then let a = the (activeSpeaker c) in
                     c\<lparr>talkTime := AList.update a (plusSeconds (orZero (getProp (talkTime c) a)) dt)
                                                   (talkTime c),
                       totalTalkTime := addNum (totalTalkTime c) dt,
                       currentMonologueSeconds := currentMonologueSeconds c + dt,
                       silenceSeconds := 0\<rparr>
                else c\<lparr>silenceSeconds := silenceSeconds c + dt,
                       currentMonologueSeconds := 0\<rparr>)
      in autoAdvanceIfNeeded (updateMetrics (e\<lparr>ctx := c1\<rparr>)))"
| "send (ADD_SPEAKER name) e =
     (if name \<notin> set (speakers (ctx e))
      then updateMetrics (e\<lparr>ctx := (ctx e)\<lparr>speakers := speakers (ctx e) @ [name],
                                             talkTime := AList.update name (Num 0) (talkTime (ctx e))\<rparr>\<rparr>)
      else e)"
| "send (REMOVE_SPEAKER name) e =
     (let c = ctx e;
          removedTime = orZero (getProp (talkTime c) name);
          c1 = c\<lparr>speakers := filter (\<lambda>s. s \<noteq> name) (speakers c),
                 talkTime := AList.delete name (talkTime c),
                 totalTalkTime := maxZero (subNum (totalTalkTime c) (toNumber removedTime))\<rparr>;
          c2 = (if activeSpeaker c1 = Some name
                then c1\<lparr>activeSpeaker := None, currentMonologueSeconds := 0\<rparr> else c1);
          c3 = (if quietSpeaker c2 = Some name then c2\<lparr>quietSpeaker := None\<rparr> else c2)
      in updateMetrics (e\<lparr>ctx := c3\<rparr>))"
| "send (SET_TALK_TIME name seconds) e =
     (case getProp (talkTime (ctx e)) name of
        Some oldVal \<Rightarrow>
          updateMetrics (e\<lparr>ctx := (ctx e)\<lparr>
              talkTime := AList.update name (Num (max 0 seconds)) (talkTime (ctx e)),
              totalTalkTime := addNum (subNum (totalTalkTime (ctx e)) (toNumber oldVal))
                                      (max 0 seconds)\<rparr>\<rparr>)
      | None \<Rightarrow> e)"
| "send (SET_SILENCE seconds) e =
     updateMetrics (e\<lparr>ctx := (ctx e)\<lparr>silenceSeconds := max 0 seconds\<rparr>\<rparr>)"
| "send (FORCE_STATE s) e = setState s e"
| "send NEXT_TURN e = nextTurn e"
| "send TURNS_COMPLETE e = e"
| "send PAUSE_DONE e = e"
| "send (CHECKIN_EVENT canContinue) e = e"

text \<open>The context after the assignments of the \<open>TICK\<close> case, before the metrics are
  recomputed and the autonomous advance runs (the same term as in \<open>send\<close>, under a name).\<close>

definition tickCtx :: "real \<Rightarrow> EngineContext \<Rightarrow> EngineContext" where
  "tickCtx dt c0 =
     (let c = c0\<lparr>totalSeconds := totalSeconds c0 + dt\<rparr> in
      if speaking c
      then let a = the (activeSpeaker c) in
           c\<lparr>talkTime := AList.update a (plusSeconds (orZero (getProp (talkTime c) a)) dt)
                                         (talkTime c),
             totalTalkTime := addNum (totalTalkTime c) dt,
             currentMonologueSeconds := currentMonologueSeconds c + dt,
             silenceSeconds := 0\<rparr>
      else c\<lparr>silenceSeconds := silenceSeconds c + dt,
             currentMonologueSeconds := 0\<rparr>)"

text \<open>A driver sends events one at a time, in the order received.\<close>

fun run :: "DiscussionEvent list \<Rightarrow> DiscussionEngine \<Rightarrow> DiscussionEngine" where
  "run [] e = e"
| "run (ev # evs) e = run evs (send ev e)"

text \<open>The engine after each event of a sequence, in order.\<close>

fun trace :: "DiscussionEvent list \<Rightarrow> DiscussionEngine \<Rightarrow> DiscussionEngine list" where
  "trace [] e = []"
| "trace (ev # evs) e = send ev e # trace evs (send ev e)"

subsection \<open>Predicates of the specification\<close>

text \<open>A \<open>TICK\<close> that carries a negative number of seconds is the only event that can put
  a negative talk time into the context.\<close>

definition nonNegativeTick :: "DiscussionEvent \<Rightarrow> bool" where
  "nonNegativeTick ev = (case ev of TICK dt \<Rightarrow> 0 \<le> dt | _ \<Rightarrow> True)"

text \<open>A name that \<open>Object.prototype\<close> has no member of, and an event that names only such
  names where it reads \<open>talkTime\<close> or makes a speaker active.\<close>

definition cleanName :: "string \<Rightarrow> bool" where
  "cleanName n = (n \<notin> set inheritedNames)"

definition cleanEvent :: "DiscussionEvent \<Rightarrow> bool" where
  "cleanEvent ev =
     (case ev of
        SPEAKER_SET n \<Rightarrow> cleanName n
      | ADD_SPEAKER n \<Rightarrow> cleanName n
      | REMOVE_SPEAKER n \<Rightarrow> cleanName n
      | SET_TALK_TIME n s \<Rightarrow> cleanName n
      | _ \<Rightarrow> True)"

text \<open>The seconds that an event can add to a talk time, and the events whose seconds are
  whole: a \<open>TICK\<close> of a non-negative integer, a \<open>SET_TALK_TIME\<close> of an integer.\<close>

definition secondsOf :: "DiscussionEvent \<Rightarrow> real" where
  "secondsOf ev = (case ev of TICK dt \<Rightarrow> dt | SET_TALK_TIME n s \<Rightarrow> max 0 s | _ \<Rightarrow> 0)"

definition wholeSeconds :: "DiscussionEvent \<Rightarrow> bool" where
  "wholeSeconds ev =
     (case ev of
        TICK dt \<Rightarrow> 0 \<le> dt \<and> dt \<in> \<int>
      | SET_TALK_TIME n s \<Rightarrow> s \<in> \<int>
      | _ \<Rightarrow> True)"

text \<open>The sum of all \<open>talkTime\<close> values; there is none when a value is not a number.\<close>

definition talkTimeSum :: "EngineContext \<Rightarrow> jsnum" where
  "talkTimeSum c = (case numbersOf (map snd (talkTime c)) of
                      Some rs \<Rightarrow> Number (sum_list rs)
                    | None \<Rightarrow> NaN)"

text \<open>The own keys of \<open>talkTime\<close> are the speakers, each key once.\<close>

definition keysMatch :: "DiscussionEngine \<Rightarrow> bool" where
  "keysMatch e = (distinct (map fst (talkTime (ctx e)))
                  \<and> set (map fst (talkTime (ctx e))) = set (speakers (ctx e)))"

text \<open>An own key of \<open>talkTime\<close> is a speaker or the name of a member of \<open>Object.prototype\<close>.\<close>

definition keysWithin :: "DiscussionEngine \<Rightarrow> bool" where
  "keysWithin e =
     list_all (\<lambda>k. k \<in> set (speakers (ctx e)) \<or> k \<in> set inheritedNames)
              (map fst (talkTime (ctx e)))"

text \<open>The speakers, the names of the turn order and the active speaker are clean names.\<close>

definition namesClean :: "DiscussionEngine \<Rightarrow> bool" where
  "namesClean e =
     (list_all cleanName (speakers (ctx e)) \<and> list_all cleanName (turnOrder (ctx e))
      \<and> (case activeSpeaker (ctx e) of None \<Rightarrow> True | Some a \<Rightarrow> cleanName a))"

text \<open>Every talk time is a number that is not negative, and \<open>totalTalkTime\<close> is their
  sum.\<close>

definition numOf :: "jsval \<Rightarrow> real" where
  "numOf v = (case v of Num r \<Rightarrow> r | _ \<Rightarrow> 0)"

definition nonNegNum :: "jsval \<Rightarrow> bool" where
  "nonNegNum v = (case v of Num r \<Rightarrow> 0 \<le> r | _ \<Rightarrow> False)"

definition sumMatches :: "DiscussionEngine \<Rightarrow> bool" where
  "sumMatches e =
     (list_all nonNegNum (map snd (talkTime (ctx e)))
      \<and> totalTalkTime (ctx e) = Number (sum_list (map (numOf \<circ> snd) (talkTime (ctx e)))))"

text \<open>What the specification says the metrics are after a recomputation: the score of the
  scorer, and the flag forced false in four phases, in quiet mode and in the grace period,
  otherwise raised by the score or by a monologue of 15 seconds.\<close>

definition metricsFresh :: "DiscussionEngine \<Rightarrow> bool" where
  "metricsFresh e =
     (dominanceScore (ctx e)
        = calculateDominanceJS (talkTime (ctx e)) (speakers (ctx e)) (totalTalkTime (ctx e))
      \<and> imbalanceFlag (ctx e)
        = (if state e \<in> {STRUCTURED, PAUSE, NUDGE, CHECKIN} \<or> quietMode (ctx e)
              \<or> totalSeconds (ctx e) < 15
           then False
           else (geNum (dominanceScore (ctx e)) (imbalanceScoreThreshold (ctx e))
                 \<or> 15 \<le> currentMonologueSeconds (ctx e))))"

text \<open>In structured turn-taking the turn index points into the turn order, unless the
  turn order is empty, and the active speaker, when there is one, is the speaker at the
  turn index.\<close>

definition turnConsistent :: "DiscussionEngine \<Rightarrow> bool" where
  "turnConsistent e =
     (if state e = STRUCTURED
      then (if turnOrder (ctx e) = [] then turnIndex (ctx e) = 0
            else turnIndex (ctx e) < length (turnOrder (ctx e)))
           \<and> (case activeSpeaker (ctx e) of
                 None \<Rightarrow> True
               | Some a \<Rightarrow> turnIndex (ctx e) < length (turnOrder (ctx e))
                           \<and> turnOrder (ctx e) ! turnIndex (ctx e) = a)
      else True)"

text \<open>The engine of the two scenarios of the specification: speakers A and B, default
  policy, A set as the speaker.\<close>

definition soloA :: DiscussionEngine where
  "soloA = send (SPEAKER_SET ''A'') (construct [''A'', ''B''] None None)"

text \<open>The engines that scenario runs through while no turn has been taken yet: A has
  held the floor for all of the \<open>t\<close> seconds on the clock. What varies is the phase, the
  clock, the imbalance timer, the time of the last phase change and the two metrics.\<close>

definition soloAt :: "DiscussionState \<Rightarrow> real \<Rightarrow> real option \<Rightarrow> real \<Rightarrow> real \<Rightarrow> bool
    \<Rightarrow> DiscussionEngine" where
  "soloAt st t since changed score flag =
     \<lparr> ctx = \<lparr> speakers = [''A'', ''B''],
               activeSpeaker = Some ''A'',
               quietSpeaker = None,
               talkTime = [(''A'', Num t), (''B'', Num 0)],
               totalSeconds = t,
               silenceSeconds = 0,
               totalTalkTime = Number t,
               currentMonologueSeconds = t,
               autoMode = True,
               quietMode = False,
               imbalanceScoreThreshold = 35 / 100,
               imbalanceHoldSeconds = 15,
               nudgeHoldSeconds = 15,
               turnHoldSeconds = 60,
               imbalanceSince = since,
               nudgeSince = None,
               stateSince = changed,
               turnSince = 0,
               turnOrder = [],
               turnIndex = 0,
               dominanceScore = Number score,
               imbalanceFlag = flag \<rparr>,
       state = st \<rparr>"

text \<open>The dominance score of that engine at time \<open>t\<close>.\<close>

definition soloScore :: "real \<Rightarrow> real" where
  "soloScore t = (t - t / 2) / (t + 1 / 1000000)"

section \<open>Properties of the dominance scorer\<close>










text \<open>The scorer of the engine is the scorer on numbers, when every talk time is a number,
  the total is a number, and every listed speaker has an entry or is a clean name.\<close>

lemma numbersOf_map_Num [simp]: "numbersOf (map Num rs) = Some rs"
  by (induction rs) auto

lemma numbersOf_map_Num_comp [simp]: "numbersOf (map (Num \<circ> f) xs) = Some (map f xs)"
  by (induction xs) auto

lemma calculateDominanceJS_numbers:
  assumes "\<forall>s\<in>set sp. s \<in> fst ` set tt \<or> cleanName s"
  shows "calculateDominanceJS (map (\<lambda>(k, r). (k, Num r)) tt) sp (Number t)
         = Number (calculateDominance tt sp t)"
proof -
  have "orZero (getProp (map (\<lambda>(k, r). (k, Num r)) tt) s) = Num (timeOr0 tt s)"
    if "s \<in> set sp" for s
  proof (cases "map_of tt s")
    case None
    then have "s \<notin> fst ` set tt" by (simp add: map_of_eq_None_iff)
    then have "cleanName s" using assms that by auto
    moreover have "map_of (map (\<lambda>(k, r). (k, Num r)) tt) s = None"
      using None by (induction tt) (auto split: if_splits)
    ultimately show ?thesis using None
      by (simp add: getProp_def orZero_def timeOr0_def cleanName_def)
  next
    case (Some r)
    then have "map_of (map (\<lambda>(k, r). (k, Num r)) tt) s = Some (Num r)"
      by (induction tt) (auto split: if_splits)
    then show ?thesis using Some by (simp add: getProp_def orZero_def timeOr0_def)
  qed
  then have eq: "map (\<lambda>s. orZero (getProp (map (\<lambda>(k, r). (k, Num r)) tt) s)) sp
             = map Num (map (timeOr0 tt) sp)"
    by simp
  show ?thesis
    unfolding calculateDominanceJS_def calculateDominance_def eq
    by (simp add: leNum_def Let_def)
qed

section \<open>The scenario of one speaker holding the floor\<close>

lemmas js_defs = getProp_def orZero_def plusSeconds_def toNumber_def addNum_def subNum_def
  maxZero_def leNum_def geNum_def assignProp_def inheritedNames_def

lemmas engine_defs = updateMetrics_def calculateDominanceJS_def js_defs
  setState_def nextTurn_def autoAdvanceIfNeeded_def speaking_def firstOrNull_def zeroTalkTime_def

lemma soloA_eq: "soloA = soloAt MONITORING 0 None 0 0 False"
  by (simp add: soloA_def soloAt_def construct_def zeroTalkTime_def assignProp_def)

lemma soloAt_sel [simp]:
  "state (soloAt st t since ch sc fl) = st"
  "totalSeconds (ctx (soloAt st t since ch sc fl)) = t"
  "imbalanceFlag (ctx (soloAt st t since ch sc fl)) = fl"
  "dominanceScore (ctx (soloAt st t since ch sc fl)) = Number sc"
  "imbalanceScoreThreshold (ctx (soloAt st t since ch sc fl)) = 35 / 100"
  "autoMode (ctx (soloAt st t since ch sc fl)) = True"
  by (simp_all add: soloAt_def)

text \<open>One second of the grace period: the flag stays down whatever the score.\<close>

lemma tick_grace:
  assumes "0 < t + 1" "t + 1 < 15"
  shows "send (TICK 1) (soloAt MONITORING t None 0 sc False)
         = soloAt MONITORING (t + 1) None 0 (soloScore (t + 1)) False"
  using assms by (simp add: soloAt_def soloScore_def engine_defs Let_def)

text \<open>The second that ends the grace period raises the flag and starts the timer.\<close>

lemma tick_flag_up:
  "send (TICK 1) (soloAt MONITORING 14 None 0 sc False)
   = soloAt MONITORING 15 (Some 15) 0 (soloScore 15) True"
  by (simp add: soloAt_def soloScore_def engine_defs Let_def)

lemma tick_hold:
  assumes "15 \<le> t" "t + 1 < 30"
  shows "send (TICK 1) (soloAt MONITORING t (Some 15) 0 sc True)
         = soloAt MONITORING (t + 1) (Some 15) 0 (soloScore (t + 1)) True"
  using assms by (simp add: soloAt_def soloScore_def engine_defs Let_def)

lemma tick_to_imbalance:
  "send (TICK 1) (soloAt MONITORING 29 (Some 15) 0 sc True)
   = soloAt IMBALANCE 30 None 30 (soloScore 30) True"
  by (simp add: soloAt_def soloScore_def engine_defs Let_def)

lemma tick_imbalance:
  assumes "30 \<le> t" "t + 1 < 45"
  shows "send (TICK 1) (soloAt IMBALANCE t None 30 sc True)
         = soloAt IMBALANCE (t + 1) None 30 (soloScore (t + 1)) True"
  using assms by (simp add: soloAt_def soloScore_def engine_defs Let_def)

lemma tick_to_nudge:
  "send (TICK 1) (soloAt IMBALANCE 44 None 30 sc True)
   = soloAt NUDGE 45 None 45 (soloScore 45) False"
  by (simp add: soloAt_def soloScore_def engine_defs Let_def)

lemma tick_nudge:
  assumes "45 \<le> t" "t + 1 < 60"
  shows "send (TICK 1) (soloAt NUDGE t None 45 sc False)
         = soloAt NUDGE (t + 1) None 45 (soloScore (t + 1)) False"
  using assms by (simp add: soloAt_def soloScore_def engine_defs Let_def)

lemma tick_to_structured:
  "state (send (TICK 1) (soloAt NUDGE 59 None 45 sc False)) = STRUCTURED
   \<and> totalSeconds (ctx (send (TICK 1) (soloAt NUDGE 59 None 45 sc False))) = 60"
  by (simp add: soloAt_def soloScore_def engine_defs Let_def)

lemmas solo_steps = tick_grace tick_flag_up tick_hold tick_to_imbalance tick_imbalance
  tick_to_nudge tick_nudge tick_to_structured

text \<open>
  Claim C1. The engine is constructed with speakers A and B and the default policy
  (so \<open>autoMode\<close> is true), \<open>SPEAKER_SET{A}\<close> is sent, then sixty \<open>TICK{1}\<close>. The clock
  reads 1 to 60 after these ticks, and the phase is \<open>MONITORING\<close> up to second 29,
  \<open>IMBALANCE_DETECTED\<close> from second 30 to 44, \<open>NUDGE\<close> from second 45 to 59 and
  \<open>STRUCTURED_TURN_TAKING\<close> at second 60: the phase changes on the ticks that make
  \<open>totalSeconds\<close> 30, 45 and 60.
\<close>

theorem autonomous_escalation:
  "autoMode (ctx soloA) \<and> state soloA = MONITORING
   \<and> map (\<lambda>e. (totalSeconds (ctx e), state e)) (trace (replicate 60 (TICK 1)) soloA)
     = zip (map real [1..<61])
           (replicate 29 MONITORING @ replicate 15 IMBALANCE @ replicate 15 NUDGE @ [STRUCTURED])"
  by (simp add: soloA_eq solo_steps numeral_eq_Suc upt_rec del: send.simps)

text \<open>
  Claim C5. The engine is constructed with speakers A and B, \<open>SPEAKER_SET{A}\<close> is sent,
  then fourteen \<open>TICK{1}\<close>. \<open>imbalanceFlag\<close> is false after every one of these fifteen
  events, although after each tick the dominance score is at least the threshold: the
  clock reads 1 to 14, inside the grace period \<open>totalSeconds < 15\<close>.
\<close>

theorem grace_period:
  "map (\<lambda>e. imbalanceFlag (ctx e)) (soloA # trace (replicate 14 (TICK 1)) soloA)
     = replicate 15 False
   \<and> map (\<lambda>e. geNum (dominanceScore (ctx e)) (imbalanceScoreThreshold (ctx e)))
         (trace (replicate 14 (TICK 1)) soloA) = replicate 14 True
   \<and> map (\<lambda>e. totalSeconds (ctx e)) (trace (replicate 14 (TICK 1)) soloA) = map real [1..<15]"
  by (simp add: soloA_eq solo_steps soloScore_def geNum_def numeral_eq_Suc upt_rec del: send.simps)

section \<open>Invariants of the context\<close>

subsection \<open>Association lists\<close>

lemma getProp_clean: "cleanName k \<Longrightarrow> getProp tt k = map_of tt k"
  by (simp add: getProp_def cleanName_def split: option.splits)

lemma getProp_own: "map_of tt k = Some v \<Longrightarrow> getProp tt k = Some v"
  by (simp add: getProp_def)

lemma getProp_None: "(getProp tt k = None) = (k \<notin> fst ` set tt \<and> k \<notin> set inheritedNames)"
proof (cases "map_of tt k")
  case None
  moreover from None have "k \<notin> fst ` set tt" by (simp add: map_of_eq_None_iff)
  ultimately show ?thesis by (simp add: getProp_def)
next
  case (Some v)
  then have "k \<in> fst ` set tt" by (metis map_of_eq_None_iff option.distinct(1))
  then show ?thesis using Some by (simp add: getProp_def)
qed

lemma assignProp_clean: "cleanName k \<Longrightarrow> assignProp k v tt = AList.update k v tt"
  by (auto simp: assignProp_def cleanName_def inheritedNames_def)

lemma value_Cons:
  "numOf (orZero (map_of (p # al) k))
   = (if fst p = k then numOf (snd p) else numOf (orZero (map_of al k)))"
  by (cases p) (auto simp: orZero_def)

lemma value_absent: "k \<notin> fst ` set al \<Longrightarrow> numOf (orZero (map_of al k)) = 0"
  by (simp add: map_of_eq_None_iff [THEN iffD2] orZero_def numOf_def)

lemma sum_update:
  "sum_list (map (numOf \<circ> snd) (AList.update k (Num v) al))
   = sum_list (map (numOf \<circ> snd) al) - numOf (orZero (map_of al k)) + v"
  by (induction al) (auto simp: orZero_def numOf_def)

lemma sum_delete:
  "distinct (map fst al) \<Longrightarrow>
   sum_list (map (numOf \<circ> snd) (AList.delete k al))
   = sum_list (map (numOf \<circ> snd) al) - numOf (orZero (map_of al k))"
  by (induction al) (auto simp: value_Cons value_absent simp del: map_of.simps)

lemma nonneg_update:
  "list_all nonNegNum (map snd al) \<Longrightarrow> 0 \<le> v \<Longrightarrow>
   list_all nonNegNum (map snd (AList.update k (Num v) al))"
  by (induction al) (auto simp: nonNegNum_def)

lemma nonneg_delete:
  "list_all nonNegNum (map snd al) \<Longrightarrow> list_all nonNegNum (map snd (AList.delete k al))"
  by (induction al) auto

lemma nonneg_entry:
  "list_all nonNegNum (map snd al) \<Longrightarrow> map_of al k = Some v \<Longrightarrow> \<exists>r. v = Num r \<and> 0 \<le> r"
  by (induction al) (auto simp: nonNegNum_def split: if_splits jsval.splits)

lemma nonneg_value:
  "list_all nonNegNum (map snd al) \<Longrightarrow> 0 \<le> numOf (orZero (map_of al k))"
  by (induction al) (auto simp: nonNegNum_def orZero_def numOf_def split: jsval.splits)

lemma nonneg_sum:
  "list_all nonNegNum (map snd al) \<Longrightarrow> 0 \<le> sum_list (map (numOf \<circ> snd) al)"
  by (induction al) (auto simp: nonNegNum_def numOf_def split: jsval.splits)

lemma numbersOf_nonneg:
  "list_all nonNegNum vs \<Longrightarrow> numbersOf vs = Some (map numOf vs)"
  by (induction vs) (auto simp: nonNegNum_def numOf_def split: jsval.splits)

lemma keys_update: "fst ` set (AList.update k v al) = insert k (fst ` set al)"
  by (simp add: AList.dom_update)

lemma keys_delete: "fst ` set (AList.delete k al) = fst ` set al - {k}"
  using AList.delete_keys [of k al, THEN arg_cong, of set] by auto

lemma distinct_keys_delete: "distinct (map fst al) \<Longrightarrow> distinct (map fst (AList.delete k al))"
  by (simp add: AList.distinct_delete)

lemma map_of_keys: "(map_of al k = None) = (k \<notin> fst ` set al)"
  by (simp add: map_of_eq_None_iff)

lemma keys_assignProp: "fst ` set (assignProp k v al) \<subseteq> insert k (fst ` set al)"
  by (auto simp: assignProp_def keys_update)

lemma fold_assign_keys:
  "fst ` set (fold (\<lambda>s m. assignProp s v m) sp acc) \<subseteq> set sp \<union> fst ` set acc"
proof (induction sp arbitrary: acc)
  case Nil
  then show ?case by simp
next
  case (Cons s sp)
  show ?case using Cons.IH [of "assignProp s v acc"] keys_assignProp [of s v acc] by auto
qed

lemma zeroTalkTime_within: "fst ` set (zeroTalkTime sp) \<subseteq> set sp"
  using fold_assign_keys [of "Num 0" sp "[]"] by (simp add: zeroTalkTime_def)

lemma fold_clean:
  "list_all cleanName sp \<Longrightarrow>
   fold (\<lambda>s m. assignProp s v m) sp acc = fold (\<lambda>s m. AList.update s v m) sp acc"
  by (induction sp arbitrary: acc) (auto simp: assignProp_clean)

lemma fold_zero_keys:
  "fst ` set (fold (\<lambda>s m. AList.update s v m) sp acc) = set sp \<union> fst ` set acc"
  by (induction sp arbitrary: acc) (auto simp: keys_update)

lemma fold_zero_distinct:
  "distinct (map fst acc) \<Longrightarrow> distinct (map fst (fold (\<lambda>s m. AList.update s v m) sp acc))"
  by (induction sp arbitrary: acc) (auto simp: AList.distinct_update)

lemma fold_assign_distinct:
  "distinct (map fst acc) \<Longrightarrow> distinct (map fst (fold (\<lambda>s m. assignProp s v m) sp acc))"
  by (induction sp arbitrary: acc) (auto simp: assignProp_def AList.distinct_update)

lemma update_zero_values:
  "list_all (\<lambda>v. v = Num 0) (map snd al) \<Longrightarrow>
   list_all (\<lambda>v. v = Num 0) (map snd (AList.update k (Num 0) al))"
  by (induction al) auto

lemma fold_zero_values:
  "list_all (\<lambda>v. v = Num 0) (map snd acc) \<Longrightarrow>
   list_all (\<lambda>v. v = Num 0) (map snd (fold (\<lambda>s m. assignProp s (Num 0) m) sp acc))"
  by (induction sp arbitrary: acc) (auto simp: update_zero_values assignProp_def)

lemma zeros_sum:
  "list_all (\<lambda>v. v = Num 0) (map snd al) \<Longrightarrow>
   sum_list (map (numOf \<circ> snd) al) = 0 \<and> list_all nonNegNum (map snd al)"
  by (induction al) (auto simp: numOf_def nonNegNum_def)

lemma zeroTalkTime_keys: "list_all cleanName sp \<Longrightarrow> fst ` set (zeroTalkTime sp) = set sp"
  by (simp add: zeroTalkTime_def fold_clean fold_zero_keys)

lemma zeroTalkTime_distinct: "distinct (map fst (zeroTalkTime sp))"
  by (simp add: zeroTalkTime_def fold_assign_distinct)

lemma zeroTalkTime_sum: "sum_list (map (numOf \<circ> snd) (zeroTalkTime sp)) = 0"
  using zeros_sum [OF fold_zero_values [of "[]" sp]] by (simp add: zeroTalkTime_def)

lemma zeroTalkTime_nonneg: "list_all nonNegNum (map snd (zeroTalkTime sp))"
  using zeros_sum [OF fold_zero_values [of "[]" sp]] by (simp add: zeroTalkTime_def)

subsection \<open>What the methods leave alone\<close>

lemma state_updateMetrics [simp]: "state (updateMetrics e) = state e"
  by (simp add: updateMetrics_def Let_def)

lemma ctx_updateMetrics [simp]:
  "talkTime (ctx (updateMetrics e)) = talkTime (ctx e)"
  "speakers (ctx (updateMetrics e)) = speakers (ctx e)"
  "totalTalkTime (ctx (updateMetrics e)) = totalTalkTime (ctx e)"
  "totalSeconds (ctx (updateMetrics e)) = totalSeconds (ctx e)"
  "silenceSeconds (ctx (updateMetrics e)) = silenceSeconds (ctx e)"
  "currentMonologueSeconds (ctx (updateMetrics e)) = currentMonologueSeconds (ctx e)"
  "activeSpeaker (ctx (updateMetrics e)) = activeSpeaker (ctx e)"
  "quietSpeaker (ctx (updateMetrics e)) = quietSpeaker (ctx e)"
  "turnOrder (ctx (updateMetrics e)) = turnOrder (ctx e)"
  "turnIndex (ctx (updateMetrics e)) = turnIndex (ctx e)"
  "turnSince (ctx (updateMetrics e)) = turnSince (ctx e)"
  "stateSince (ctx (updateMetrics e)) = stateSince (ctx e)"
  "imbalanceSince (ctx (updateMetrics e)) = imbalanceSince (ctx e)"
  "autoMode (ctx (updateMetrics e)) = autoMode (ctx e)"
  "quietMode (ctx (updateMetrics e)) = quietMode (ctx e)"
  "imbalanceScoreThreshold (ctx (updateMetrics e)) = imbalanceScoreThreshold (ctx e)"
  "imbalanceHoldSeconds (ctx (updateMetrics e)) = imbalanceHoldSeconds (ctx e)"
  "nudgeHoldSeconds (ctx (updateMetrics e)) = nudgeHoldSeconds (ctx e)"
  "turnHoldSeconds (ctx (updateMetrics e)) = turnHoldSeconds (ctx e)"
  by (simp_all add: updateMetrics_def Let_def)

lemma keysMatch_updateMetrics [simp]: "keysMatch (updateMetrics e) = keysMatch e"
  by (simp add: keysMatch_def)

lemma keysWithin_updateMetrics [simp]: "keysWithin (updateMetrics e) = keysWithin e"
  by (simp add: keysWithin_def)

lemma namesClean_updateMetrics [simp]: "namesClean (updateMetrics e) = namesClean e"
  by (simp add: namesClean_def cong: option.case_cong)

lemma sumMatches_updateMetrics [simp]: "sumMatches (updateMetrics e) = sumMatches e"
  by (simp add: sumMatches_def)

lemma turnConsistent_updateMetrics [simp]: "turnConsistent (updateMetrics e) = turnConsistent e"
  by (simp add: turnConsistent_def cong: option.case_cong)

lemma state_setState [simp]: "state (setState s e) = s"
  by (simp add: setState_def Let_def)

subsection \<open>The \<open>TICK\<close> case\<close>

lemma send_TICK: "send (TICK dt) e = autoAdvanceIfNeeded (updateMetrics (e\<lparr>ctx := tickCtx dt (ctx e)\<rparr>))"
  by (simp add: tickCtx_def Let_def)

lemma tickCtx_frame [simp]:
  "totalSeconds (tickCtx dt c) = totalSeconds c + dt"
  "speakers (tickCtx dt c) = speakers c"
  "activeSpeaker (tickCtx dt c) = activeSpeaker c"
  "turnOrder (tickCtx dt c) = turnOrder c"
  "turnIndex (tickCtx dt c) = turnIndex c"
  "turnSince (tickCtx dt c) = turnSince c"
  "stateSince (tickCtx dt c) = stateSince c"
  "autoMode (tickCtx dt c) = autoMode c"
  "quietMode (tickCtx dt c) = quietMode c"
  "turnHoldSeconds (tickCtx dt c) = turnHoldSeconds c"
  by (simp_all add: tickCtx_def Let_def)

lemma tickCtx_speaking:
  assumes "activeSpeaker c = Some a" "a \<noteq> []" "getProp (talkTime c) a = Some v"
  shows "tickCtx dt c = c\<lparr>totalSeconds := totalSeconds c + dt,
                           talkTime := AList.update a (plusSeconds v dt) (talkTime c),
                           totalTalkTime := addNum (totalTalkTime c) dt,
                           currentMonologueSeconds := currentMonologueSeconds c + dt,
                           silenceSeconds := 0\<rparr>"
  using assms by (simp add: tickCtx_def speaking_def orZero_def Let_def)

lemma tickCtx_silent:
  assumes "activeSpeaker c = None \<or> activeSpeaker c = Some []
           \<or> (\<exists>a. activeSpeaker c = Some a \<and> getProp (talkTime c) a = None)"
  shows "tickCtx dt c = c\<lparr>totalSeconds := totalSeconds c + dt,
                           silenceSeconds := silenceSeconds c + dt,
                           currentMonologueSeconds := 0\<rparr>"
  using assms by (auto simp: tickCtx_def speaking_def Let_def)

lemma tickCtx_cases:
  obtains (speaking) a v where "activeSpeaker c = Some a" "a \<noteq> []"
      "getProp (talkTime c) a = Some v"
      "tickCtx dt c = c\<lparr>totalSeconds := totalSeconds c + dt,
                           talkTime := AList.update a (plusSeconds v dt) (talkTime c),
                           totalTalkTime := addNum (totalTalkTime c) dt,
                           currentMonologueSeconds := currentMonologueSeconds c + dt,
                           silenceSeconds := 0\<rparr>"
  | (silent) "tickCtx dt c = c\<lparr>totalSeconds := totalSeconds c + dt,
                           silenceSeconds := silenceSeconds c + dt,
                           currentMonologueSeconds := 0\<rparr>"
proof (cases "activeSpeaker c")
  case None
  then show ?thesis using silent tickCtx_silent [of c dt] by simp
next
  case (Some a)
  show ?thesis
  proof (cases "a \<noteq> [] \<and> getProp (talkTime c) a \<noteq> None")
    case True
    then obtain v where "getProp (talkTime c) a = Some v" by auto
    then show ?thesis using speaking [of a v] Some True tickCtx_speaking [of c a v dt] by simp
  next
    case False
    then show ?thesis using silent tickCtx_silent [of c dt] Some by auto
  qed
qed

subsection \<open>Clean names stay clean\<close>

lemma namesClean_setState: "namesClean e \<Longrightarrow> namesClean (setState s e)"
  by (cases s)
     (auto simp: setState_def Let_def namesClean_def firstOrNull_def
           split: list.splits option.splits)

lemma namesClean_nextTurn: "namesClean e \<Longrightarrow> namesClean (nextTurn e)"
proof (cases "state e = STRUCTURED \<and> length (turnOrder (ctx e)) \<le> turnIndex (ctx e) + 1")
  case True
  assume "namesClean e"
  then have "namesClean (e\<lparr>ctx := (ctx e)\<lparr>turnIndex := turnIndex (ctx e) + 1\<rparr>\<rparr>)"
    by (simp add: namesClean_def cong: option.case_cong)
  then have "namesClean (setState PAUSE (e\<lparr>ctx := (ctx e)\<lparr>turnIndex := turnIndex (ctx e) + 1\<rparr>\<rparr>))"
    by (rule namesClean_setState)
  then show ?thesis using True by (simp add: nextTurn_def Let_def)
next
  case False
  assume "namesClean e"
  then show ?thesis using False
    by (auto simp: nextTurn_def Let_def namesClean_def list_all_length split: option.splits)
qed

lemma namesClean_imbalanceSince [simp]:
  "namesClean (e\<lparr>ctx := (ctx e)\<lparr>imbalanceSince := x\<rparr>\<rparr>) = namesClean e"
  by (simp add: namesClean_def cong: option.case_cong)

lemma namesClean_autoAdvance: "namesClean e \<Longrightarrow> namesClean (autoAdvanceIfNeeded e)"
  by (cases "state e")
     (auto simp: autoAdvanceIfNeeded_def Let_def namesClean_setState namesClean_nextTurn)

lemma namesClean_tick: "namesClean e \<Longrightarrow> namesClean (e\<lparr>ctx := tickCtx dt (ctx e)\<rparr>)"
  by (cases rule: tickCtx_cases [of "ctx e" dt])
     (auto simp: namesClean_def split: option.splits)

lemma namesClean_send:
  assumes "namesClean e" "cleanEvent ev"
  shows "namesClean (send ev e)"
proof (cases ev)
  case (TICK dt)
  show ?thesis unfolding TICK send_TICK
    using assms(1) by (intro namesClean_autoAdvance) (simp add: namesClean_tick)
next
  case (SPEAKER_SET n)
  then show ?thesis using assms
    by (auto simp: namesClean_def cleanEvent_def Let_def split: option.splits)
next
  case (ADD_SPEAKER n)
  then show ?thesis using assms
    by (auto simp: namesClean_def cleanEvent_def split: option.splits)
next
  case (REMOVE_SPEAKER n)
  then show ?thesis using assms
    by (auto simp: namesClean_def Let_def list_all_iff split: option.splits)
next
  case (SET_TALK_TIME n s)
  then show ?thesis using assms
    by (auto simp: namesClean_def split: option.splits)
next
  case (FORCE_STATE s)
  then show ?thesis using assms by (simp add: namesClean_setState)
next
  case NEXT_TURN
  then show ?thesis using assms by (simp add: namesClean_nextTurn)
qed (use assms in \<open>auto simp: namesClean_def split: option.splits\<close>)

subsection \<open>The own keys of \<open>talkTime\<close>\<close>

lemma keysWithin_iff:
  "keysWithin e = (fst ` set (talkTime (ctx e)) \<subseteq> set (speakers (ctx e)) \<union> set inheritedNames)"
  by (auto simp: keysWithin_def list_all_iff)

lemma keysWithin_setState: "keysWithin e \<Longrightarrow> keysWithin (setState s e)"
  using zeroTalkTime_within [of "speakers (ctx e)"]
  by (cases s) (auto simp: setState_def Let_def keysWithin_iff)

lemma keysWithin_nextTurn: "keysWithin e \<Longrightarrow> keysWithin (nextTurn e)"
proof -
  assume k: "keysWithin e"
  then have "keysWithin (e\<lparr>ctx := (ctx e)\<lparr>turnIndex := turnIndex (ctx e) + 1\<rparr>\<rparr>)"
    by (simp add: keysWithin_def)
  from keysWithin_setState [OF this, of PAUSE] k show ?thesis
    by (auto simp: nextTurn_def Let_def keysWithin_def)
qed

lemma keysWithin_imbalanceSince [simp]:
  "keysWithin (e\<lparr>ctx := (ctx e)\<lparr>imbalanceSince := x\<rparr>\<rparr>) = keysWithin e"
  by (simp add: keysWithin_def)

lemma keysWithin_autoAdvance: "keysWithin e \<Longrightarrow> keysWithin (autoAdvanceIfNeeded e)"
  by (cases "state e")
     (auto simp: autoAdvanceIfNeeded_def Let_def keysWithin_setState keysWithin_nextTurn)

lemma getProp_Some_key:
  "getProp tt k = Some v \<Longrightarrow> k \<in> fst ` set tt \<or> k \<in> set inheritedNames"
  using getProp_None [of tt k] by auto

lemma keysWithin_tick: "keysWithin e \<Longrightarrow> keysWithin (e\<lparr>ctx := tickCtx dt (ctx e)\<rparr>)"
proof (cases rule: tickCtx_cases [of "ctx e" dt])
  case (speaking a v)
  assume "keysWithin e"
  then show ?thesis using speaking(4) getProp_Some_key [OF speaking(3)]
    by (auto simp: keysWithin_iff keys_update)
next
  case silent
  assume "keysWithin e"
  then show ?thesis using silent by (simp add: keysWithin_iff)
qed

lemma keysWithin_send: "keysWithin e \<Longrightarrow> keysWithin (send ev e)"
proof (cases ev)
  case (TICK dt)
  assume "keysWithin e"
  then show ?thesis unfolding TICK send_TICK
    by (intro keysWithin_autoAdvance) (simp add: keysWithin_tick)
next
  case (SPEAKER_SET n)
  assume "keysWithin e"
  then show ?thesis using SPEAKER_SET
    by (auto simp: keysWithin_def Let_def split: option.splits)
next
  case (ADD_SPEAKER n)
  assume "keysWithin e"
  then show ?thesis using ADD_SPEAKER
    by (auto simp: keysWithin_iff keys_update)
next
  case (REMOVE_SPEAKER n)
  assume "keysWithin e"
  then show ?thesis using REMOVE_SPEAKER
    by (auto simp: keysWithin_iff Let_def keys_delete)
next
  case (SET_TALK_TIME n s)
  assume k: "keysWithin e"
  show ?thesis
  proof (cases "getProp (talkTime (ctx e)) n")
    case None
    then show ?thesis using k SET_TALK_TIME by simp
  next
    case (Some v)
    then show ?thesis using k SET_TALK_TIME getProp_Some_key [OF Some]
      by (auto simp: keysWithin_iff keys_update)
  qed
next
  case (FORCE_STATE s)
  assume "keysWithin e"
  then show ?thesis using FORCE_STATE by (simp add: keysWithin_setState)
next
  case NEXT_TURN
  assume "keysWithin e"
  then show ?thesis using NEXT_TURN by (simp add: keysWithin_nextTurn)
qed (auto simp: keysWithin_def)

lemma keysWithin_construct: "keysWithin (construct sp am th)"
  using zeroTalkTime_within [of sp] by (auto simp: keysWithin_iff construct_def)

lemma keysWithin_run: "keysWithin e \<Longrightarrow> keysWithin (run evs e)"
  by (induction evs arbitrary: e) (auto simp: keysWithin_send)

subsection \<open>With clean names, the own keys of \<open>talkTime\<close> are the speakers\<close>

lemma keysMatch_setState: "keysMatch e \<Longrightarrow> namesClean e \<Longrightarrow> keysMatch (setState s e)"
  by (cases s)
     (auto simp: setState_def Let_def keysMatch_def namesClean_def
                 zeroTalkTime_keys zeroTalkTime_distinct)

lemma keysMatch_nextTurn: "keysMatch e \<Longrightarrow> namesClean e \<Longrightarrow> keysMatch (nextTurn e)"
proof -
  assume k: "keysMatch e" and n: "namesClean e"
  have "keysMatch (e\<lparr>ctx := (ctx e)\<lparr>turnIndex := turnIndex (ctx e) + 1\<rparr>\<rparr>)"
    and "namesClean (e\<lparr>ctx := (ctx e)\<lparr>turnIndex := turnIndex (ctx e) + 1\<rparr>\<rparr>)"
    using k n by (simp_all add: keysMatch_def namesClean_def cong: option.case_cong)
  from keysMatch_setState [OF this, of PAUSE] k show ?thesis
    by (auto simp: nextTurn_def Let_def keysMatch_def)
qed

lemma keysMatch_imbalanceSince [simp]:
  "keysMatch (e\<lparr>ctx := (ctx e)\<lparr>imbalanceSince := x\<rparr>\<rparr>) = keysMatch e"
  by (simp add: keysMatch_def)

lemma keysMatch_autoAdvance:
  "keysMatch e \<Longrightarrow> namesClean e \<Longrightarrow> keysMatch (autoAdvanceIfNeeded e)"
  by (cases "state e")
     (auto simp: autoAdvanceIfNeeded_def Let_def keysMatch_setState keysMatch_nextTurn)

lemma active_entry:
  assumes "namesClean e" "activeSpeaker (ctx e) = Some a" "getProp (talkTime (ctx e)) a = Some v"
  shows "map_of (talkTime (ctx e)) a = Some v"
proof -
  have "cleanName a" using assms(1,2) by (simp add: namesClean_def)
  then show ?thesis using assms(3) by (simp add: getProp_clean)
qed

lemma keysMatch_tick:
  assumes "keysMatch e" "namesClean e"
  shows "keysMatch (e\<lparr>ctx := tickCtx dt (ctx e)\<rparr>)"
proof (cases rule: tickCtx_cases [of "ctx e" dt])
  case (speaking a v)
  have "map_of (talkTime (ctx e)) a = Some v"
    using assms(2) speaking(1,3) by (rule active_entry)
  then have "a \<in> fst ` set (talkTime (ctx e))"
    by (metis map_of_keys option.distinct(1))
  then show ?thesis using assms(1) speaking(4)
    by (auto simp: keysMatch_def keys_update AList.distinct_update)
next
  case silent
  then show ?thesis using assms(1) by (simp add: keysMatch_def)
qed

lemma keysMatch_send:
  assumes k: "keysMatch e" and n: "namesClean e" and c: "cleanEvent ev"
  shows "keysMatch (send ev e)"
proof (cases ev)
  case (TICK dt)
  show ?thesis unfolding TICK send_TICK
    using k n by (intro keysMatch_autoAdvance) (simp_all add: keysMatch_tick namesClean_tick)
next
  case (SPEAKER_SET m)
  then show ?thesis using k
    by (auto simp: keysMatch_def Let_def split: option.splits)
next
  case (ADD_SPEAKER m)
  then show ?thesis using k
    by (auto simp: keysMatch_def AList.distinct_update keys_update)
next
  case (REMOVE_SPEAKER m)
  then show ?thesis using k
    by (auto simp: keysMatch_def Let_def distinct_keys_delete keys_delete)
next
  case (SET_TALK_TIME m s)
  have cm: "cleanName m" using c SET_TALK_TIME by (simp add: cleanEvent_def)
  show ?thesis
  proof (cases "map_of (talkTime (ctx e)) m")
    case None
    then show ?thesis using k SET_TALK_TIME cm by (simp add: getProp_clean)
  next
    case (Some v)
    then have "m \<in> fst ` set (talkTime (ctx e))" by (metis map_of_keys option.distinct(1))
    then show ?thesis using k SET_TALK_TIME cm Some
      by (auto simp: getProp_clean keysMatch_def AList.distinct_update keys_update)
  qed
next
  case (FORCE_STATE s)
  then show ?thesis using k n by (simp add: keysMatch_setState)
next
  case NEXT_TURN
  then show ?thesis using k n by (simp add: keysMatch_nextTurn)
qed (use k in \<open>auto simp: keysMatch_def\<close>)

subsection \<open>With clean names and no negative tick, \<open>totalTalkTime\<close> is the sum\<close>

lemma sumMatches_setState: "sumMatches e \<Longrightarrow> sumMatches (setState s e)"
  by (cases s)
     (auto simp: setState_def Let_def sumMatches_def zeroTalkTime_sum zeroTalkTime_nonneg)

lemma sumMatches_nextTurn: "sumMatches e \<Longrightarrow> sumMatches (nextTurn e)"
proof -
  assume k: "sumMatches e"
  then have "sumMatches (e\<lparr>ctx := (ctx e)\<lparr>turnIndex := turnIndex (ctx e) + 1\<rparr>\<rparr>)"
    by (simp add: sumMatches_def)
  from sumMatches_setState [OF this, of PAUSE] k show ?thesis
    by (auto simp: nextTurn_def Let_def sumMatches_def)
qed

lemma sumMatches_imbalanceSince [simp]:
  "sumMatches (e\<lparr>ctx := (ctx e)\<lparr>imbalanceSince := x\<rparr>\<rparr>) = sumMatches e"
  by (simp add: sumMatches_def)

lemma sumMatches_autoAdvance: "sumMatches e \<Longrightarrow> sumMatches (autoAdvanceIfNeeded e)"
  by (cases "state e")
     (auto simp: autoAdvanceIfNeeded_def Let_def sumMatches_setState sumMatches_nextTurn)

lemma toNumber_value:
  assumes "list_all nonNegNum (map snd al)"
  shows "toNumber (orZero (map_of al k)) = Number (numOf (orZero (map_of al k)))"
proof (cases "map_of al k")
  case None
  then show ?thesis by (simp add: orZero_def toNumber_def numOf_def)
next
  case (Some v)
  then obtain r where "v = Num r" using nonneg_entry [OF assms Some] by auto
  then show ?thesis using Some by (simp add: orZero_def toNumber_def numOf_def)
qed

lemma sumMatches_tick:
  assumes n: "namesClean e" and s: "sumMatches e" and dt: "0 \<le> dt"
  shows "sumMatches (e\<lparr>ctx := tickCtx dt (ctx e)\<rparr>)"
proof (cases rule: tickCtx_cases [of "ctx e" dt])
  case (speaking a v)
  have nn: "list_all nonNegNum (map snd (talkTime (ctx e)))"
    and tot: "totalTalkTime (ctx e) = Number (sum_list (map (numOf \<circ> snd) (talkTime (ctx e))))"
    using s by (simp_all add: sumMatches_def)
  have m: "map_of (talkTime (ctx e)) a = Some v"
    using n speaking(1,3) by (rule active_entry)
  then obtain r where r: "v = Num r" "0 \<le> r" using nonneg_entry [OF nn m] by auto
  have pv: "plusSeconds v dt = Num (r + dt)" using r by (simp add: plusSeconds_def)
  have "list_all nonNegNum (map snd (AList.update a (Num (r + dt)) (talkTime (ctx e))))"
    using nn r dt by (intro nonneg_update) simp_all
  moreover have "addNum (totalTalkTime (ctx e)) dt
      = Number (sum_list (map (numOf \<circ> snd) (AList.update a (Num (r + dt)) (talkTime (ctx e)))))"
    using m r by (simp add: tot addNum_def sum_update orZero_def numOf_def)
  ultimately show ?thesis using speaking(4) pv by (simp add: sumMatches_def)
next
  case silent
  then show ?thesis using s by (simp add: sumMatches_def)
qed

lemma sumMatches_send:
  assumes k: "keysMatch e" and n: "namesClean e" and s: "sumMatches e"
    and c: "cleanEvent ev" and t: "nonNegativeTick ev"
  shows "sumMatches (send ev e)"
proof -
  have nn: "list_all nonNegNum (map snd (talkTime (ctx e)))"
    and tot: "totalTalkTime (ctx e) = Number (sum_list (map (numOf \<circ> snd) (talkTime (ctx e))))"
    using s by (simp_all add: sumMatches_def)
  show ?thesis
  proof (cases ev)
    case (TICK dt)
    have dt: "0 \<le> dt" using t TICK by (simp add: nonNegativeTick_def)
    show ?thesis unfolding TICK send_TICK
      using n s dt by (intro sumMatches_autoAdvance) (simp add: sumMatches_tick)
  next
    case (SPEAKER_SET m)
    show ?thesis using s SPEAKER_SET
      by (auto simp: sumMatches_def Let_def split: option.splits)
  next
    case (ADD_SPEAKER m)
    show ?thesis
    proof (cases "m \<in> set (speakers (ctx e))")
      case True
      then show ?thesis using s ADD_SPEAKER by simp
    next
      case False
      then have "numOf (orZero (map_of (talkTime (ctx e)) m)) = 0"
        using k by (intro value_absent) (simp add: keysMatch_def)
      then show ?thesis using nn tot ADD_SPEAKER False
        by (auto simp: sumMatches_def sum_update intro!: nonneg_update)
    qed
  next
    case (REMOVE_SPEAKER m)
    have cm: "cleanName m" using c REMOVE_SPEAKER by (simp add: cleanEvent_def)
    have d: "distinct (map fst (talkTime (ctx e)))" using k by (simp add: keysMatch_def)
    have nd: "list_all nonNegNum (map snd (AList.delete m (talkTime (ctx e))))"
      using nn by (rule nonneg_delete)
    have "0 \<le> sum_list (map (numOf \<circ> snd) (AList.delete m (talkTime (ctx e))))"
      using nd by (rule nonneg_sum)
    then have "maxZero (subNum (totalTalkTime (ctx e))
                  (toNumber (orZero (getProp (talkTime (ctx e)) m))))
               = Number (sum_list (map (numOf \<circ> snd) (AList.delete m (talkTime (ctx e)))))"
      using cm by (simp add: getProp_clean toNumber_value [OF nn] tot subNum_def maxZero_def
                             sum_delete [OF d])
    then show ?thesis using REMOVE_SPEAKER nd
      by (simp add: sumMatches_def Let_def)
  next
    case (SET_TALK_TIME m x)
    have cm: "cleanName m" using c SET_TALK_TIME by (simp add: cleanEvent_def)
    show ?thesis
    proof (cases "map_of (talkTime (ctx e)) m")
      case None
      then show ?thesis using s SET_TALK_TIME cm by (simp add: getProp_clean)
    next
      case (Some old)
      then obtain r where r: "old = Num r" using nonneg_entry [OF nn Some] by auto
      have "list_all nonNegNum (map snd (AList.update m (Num (max 0 x)) (talkTime (ctx e))))"
        using nn by (intro nonneg_update) simp_all
      moreover have "addNum (subNum (totalTalkTime (ctx e)) (toNumber old)) (max 0 x)
          = Number (sum_list (map (numOf \<circ> snd)
                      (AList.update m (Num (max 0 x)) (talkTime (ctx e)))))"
        using Some r
        by (simp add: tot toNumber_def subNum_def addNum_def sum_update orZero_def numOf_def)
      ultimately show ?thesis using SET_TALK_TIME cm Some
        by (simp add: getProp_clean sumMatches_def)
    qed
  next
    case (FORCE_STATE st)
    show ?thesis using s FORCE_STATE by (simp add: sumMatches_setState)
  next
    case NEXT_TURN
    show ?thesis using s NEXT_TURN by (simp add: sumMatches_nextTurn)
  qed (use s in \<open>auto simp: sumMatches_def\<close>)
qed

lemma namesClean_construct: "list_all cleanName sp \<Longrightarrow> namesClean (construct sp am th)"
  by (simp add: namesClean_def construct_def)

lemma keysMatch_construct: "list_all cleanName sp \<Longrightarrow> keysMatch (construct sp am th)"
  by (simp add: keysMatch_def construct_def zeroTalkTime_keys zeroTalkTime_distinct)

lemma sumMatches_construct: "sumMatches (construct sp am th)"
  by (simp add: sumMatches_def construct_def zeroTalkTime_sum zeroTalkTime_nonneg)

lemma wholeSeconds_nonNegative: "wholeSeconds ev \<Longrightarrow> nonNegativeTick ev"
  by (cases ev) (simp_all add: wholeSeconds_def nonNegativeTick_def)

lemma invariants_run:
  assumes "keysMatch e" "namesClean e" "sumMatches e"
    and "list_all cleanEvent evs" "list_all nonNegativeTick evs"
  shows "keysMatch (run evs e) \<and> namesClean (run evs e) \<and> sumMatches (run evs e)"
  using assms
  by (induction evs arbitrary: e) (auto simp: keysMatch_send namesClean_send sumMatches_send)

lemma sum_over_keys:
  "distinct (map fst al) \<Longrightarrow>
   sum_list (map (numOf \<circ> snd) al) = (\<Sum>k\<in>fst ` set al. numOf (orZero (map_of al k)))"
proof (induction al)
  case Nil
  then show ?case by simp
next
  case (Cons p ps)
  then have notin: "fst p \<notin> fst ` set ps" and d: "distinct (map fst ps)" by auto
  have "(\<Sum>k\<in>fst ` set ps. numOf (orZero (map_of (p # ps) k)))
        = (\<Sum>k\<in>fst ` set ps. numOf (orZero (map_of ps k)))"
    using notin by (intro sum.cong) (auto simp: value_Cons simp del: map_of.simps)
  then show ?case using Cons.IH [OF d] notin
    by (simp add: value_Cons del: map_of.simps)
qed

lemma own_getProp: "k \<in> fst ` set al \<Longrightarrow> getProp al k = map_of al k"
  by (cases "map_of al k") (auto simp: getProp_def map_of_keys)

text \<open>
  Claim C3, as amended. For every engine made by the constructor from names that are not
  names of members of \<open>Object.prototype\<close>, and every finite sequence of events sent to it
  (events of every type) that name only such names, in which every \<open>TICK\<close> carries a
  non-negative integer number of seconds and every \<open>SET_TALK_TIME\<close> an integer, the
  seconds of the sequence adding up to at most \<open>2^53\<close>: \<open>totalTalkTime\<close> equals the sum of
  the \<open>talkTime\<close> values afterwards, which is a number and the sum of the talk times of the
  speakers. (The proof uses that the names are clean and that no tick is negative. That
  the seconds are integers within \<open>2^53\<close> is what makes the sums of the code, which are
  rounded, the exact sums of this model.)
\<close>

theorem talk_time_total:
  assumes "list_all cleanName sp" and "list_all cleanEvent evs"
    and "list_all wholeSeconds evs" and "sum_list (map secondsOf evs) \<le> 2 ^ 53"
  shows "totalTalkTime (ctx (run evs (construct sp am th)))
           = talkTimeSum (ctx (run evs (construct sp am th)))
         \<and> talkTimeSum (ctx (run evs (construct sp am th)))
           = Number (\<Sum>s\<in>set (speakers (ctx (run evs (construct sp am th)))).
                 numOf (orZero (getProp (talkTime (ctx (run evs (construct sp am th)))) s)))"
proof -
  let ?e = "run evs (construct sp am th)"
  let ?tt = "talkTime (ctx ?e)"
  have nt: "list_all nonNegativeTick evs"
    using assms(3) by (auto simp: list_all_iff wholeSeconds_nonNegative)
  have inv: "keysMatch ?e \<and> namesClean ?e \<and> sumMatches ?e"
    using assms(1,2) nt
    by (intro invariants_run keysMatch_construct namesClean_construct sumMatches_construct)
  then have nn: "list_all nonNegNum (map snd ?tt)"
    and tot: "totalTalkTime (ctx ?e) = Number (sum_list (map (numOf \<circ> snd) ?tt))"
    and d: "distinct (map fst ?tt)" and keys: "fst ` set ?tt = set (speakers (ctx ?e))"
    by (simp_all add: sumMatches_def keysMatch_def)
  have sum: "talkTimeSum (ctx ?e) = Number (sum_list (map (numOf \<circ> snd) ?tt))"
    using numbersOf_nonneg [OF nn] by (simp add: talkTimeSum_def)
  have "sum_list (map (numOf \<circ> snd) ?tt) = (\<Sum>k\<in>fst ` set ?tt. numOf (orZero (map_of ?tt k)))"
    using d by (rule sum_over_keys)
  also have "\<dots> = (\<Sum>k\<in>fst ` set ?tt. numOf (orZero (getProp ?tt k)))"
    by (intro sum.cong) (simp_all add: own_getProp)
  finally show ?thesis using tot sum keys by simp
qed

theorem talk_time_total_witness:
  "list_all cleanName [''A'', ''B'']
   \<and> list_all cleanEvent
       [SPEAKER_SET ''A'', TICK 5, ADD_SPEAKER ''C'', SET_TALK_TIME ''B'' 7, REMOVE_SPEAKER ''A'']
   \<and> list_all wholeSeconds
       [SPEAKER_SET ''A'', TICK 5, ADD_SPEAKER ''C'', SET_TALK_TIME ''B'' 7, REMOVE_SPEAKER ''A'']
   \<and> totalTalkTime (ctx (run
        [SPEAKER_SET ''A'', TICK 5, ADD_SPEAKER ''C'', SET_TALK_TIME ''B'' 7, REMOVE_SPEAKER ''A'']
        (construct [''A'', ''B''] None None)))
     = talkTimeSum (ctx (run
        [SPEAKER_SET ''A'', TICK 5, ADD_SPEAKER ''C'', SET_TALK_TIME ''B'' 7, REMOVE_SPEAKER ''A'']
        (construct [''A'', ''B''] None None)))"
proof -
  let ?evs = "[SPEAKER_SET ''A'', TICK 5, ADD_SPEAKER ''C'', SET_TALK_TIME ''B'' 7,
               REMOVE_SPEAKER ''A'']"
  have a: "list_all cleanName [''A'', ''B'']"
    by (simp add: cleanName_def inheritedNames_def)
  have b: "list_all cleanEvent ?evs"
    by (simp add: cleanEvent_def cleanName_def inheritedNames_def)
  have c: "list_all wholeSeconds ?evs"
    by (simp add: wholeSeconds_def)
  have d: "sum_list (map secondsOf ?evs) \<le> 2 ^ 53"
    by (simp add: secondsOf_def)
  from talk_time_total [OF a b c d, of None None] a b c show ?thesis by blast
qed

text \<open>
  The claim as stated fails in two ways. A \<open>TICK\<close> of negative seconds takes the active
  speaker's talk time and \<open>totalTalkTime\<close> below zero, and the floor at 0 in
  \<open>REMOVE_SPEAKER\<close> then lifts \<open>totalTalkTime\<close> alone: here A has 100 seconds set, four
  ticks of 15 seconds take the engine to structured turn-taking with A active, a tick of
  -200 seconds leaves A at -100, and removing B leaves \<open>totalTalkTime = 0\<close>. And
  \<open>SET_TALK_TIME\<close> of the name \<open>constructor\<close>, which every object inherits, passes the
  guard \<open>talkTime[name] !== undefined\<close>, stores 5 and subtracts a function from
  \<open>totalTalkTime\<close>, which becomes \<open>NaN\<close>.
\<close>

theorem talk_time_total_counterexample:
  "totalTalkTime (ctx (run
      [SET_TALK_TIME ''A'' 100, TICK 15, TICK 15, TICK 15, TICK 15, TICK (- 200),
       REMOVE_SPEAKER ''B'']
      (construct [''A'', ''B''] None None))) = Number 0
   \<and> talkTimeSum (ctx (run
      [SET_TALK_TIME ''A'' 100, TICK 15, TICK 15, TICK 15, TICK 15, TICK (- 200),
       REMOVE_SPEAKER ''B'']
      (construct [''A'', ''B''] None None))) = Number (- 100)
   \<and> totalTalkTime (ctx (run [SET_TALK_TIME ''constructor'' 5]
        (construct [''A'', ''B''] None None))) = NaN
   \<and> talkTimeSum (ctx (run [SET_TALK_TIME ''constructor'' 5]
        (construct [''A'', ''B''] None None))) = Number 5"
  by (simp add: construct_def engine_defs talkTimeSum_def Let_def)

subsection \<open>Turn-taking\<close>

lemma indexOf_Some: "indexOf xs n = Some i \<Longrightarrow> i < length xs \<and> xs ! i = n"
  by (induction xs arbitrary: i) (auto split: if_splits)

lemma indexOf_None: "(indexOf xs n = None) = (n \<notin> set xs)"
  by (induction xs) auto

lemma turnConsistent_setState: "turnConsistent e \<Longrightarrow> turnConsistent (setState s e)"
  by (cases s)
     (auto simp: setState_def Let_def turnConsistent_def firstOrNull_def
           split: list.splits if_splits)

lemma turnConsistent_nextTurn: "turnConsistent e \<Longrightarrow> turnConsistent (nextTurn e)"
proof (cases "state e = STRUCTURED \<and> length (turnOrder (ctx e)) \<le> turnIndex (ctx e) + 1")
  case True
  have "turnConsistent (setState PAUSE (e\<lparr>ctx := (ctx e)\<lparr>turnIndex := turnIndex (ctx e) + 1\<rparr>\<rparr>))"
    by (simp add: turnConsistent_def)
  then show ?thesis using True by (simp add: nextTurn_def Let_def)
next
  case False
  assume "turnConsistent e"
  then show ?thesis using False by (auto simp: nextTurn_def Let_def turnConsistent_def)
qed

lemma turnConsistent_imbalanceSince [simp]:
  "turnConsistent (e\<lparr>ctx := (ctx e)\<lparr>imbalanceSince := x\<rparr>\<rparr>) = turnConsistent e"
  by (simp add: turnConsistent_def cong: option.case_cong)

lemma turnConsistent_autoAdvance: "turnConsistent e \<Longrightarrow> turnConsistent (autoAdvanceIfNeeded e)"
  by (cases "state e")
     (auto simp: autoAdvanceIfNeeded_def Let_def turnConsistent_setState turnConsistent_nextTurn)

lemma turnConsistent_send: "turnConsistent e \<Longrightarrow> turnConsistent (send ev e)"
proof (cases ev)
  case (TICK dt)
  assume k: "turnConsistent e"
  have "turnConsistent (e\<lparr>ctx := tickCtx dt (ctx e)\<rparr>)"
    using k by (cases rule: tickCtx_cases [of "ctx e" dt])
               (auto simp: turnConsistent_def split: option.splits if_splits)
  then show ?thesis unfolding TICK send_TICK
    by (intro turnConsistent_autoAdvance) simp
next
  case (SPEAKER_SET n)
  assume "turnConsistent e"
  then show ?thesis using SPEAKER_SET
    by (auto simp: turnConsistent_def Let_def dest: indexOf_Some split: option.splits if_splits)
next
  case (ADD_SPEAKER n)
  assume "turnConsistent e"
  then show ?thesis using ADD_SPEAKER
    by (auto simp: turnConsistent_def cong: option.case_cong)
next
  case (REMOVE_SPEAKER n)
  assume "turnConsistent e"
  then show ?thesis using REMOVE_SPEAKER
    by (auto simp: turnConsistent_def Let_def split: option.splits)
next
  case (SET_TALK_TIME n s)
  assume "turnConsistent e"
  then show ?thesis using SET_TALK_TIME
    by (auto simp: turnConsistent_def split: option.splits)
next
  case (FORCE_STATE s)
  assume "turnConsistent e"
  then show ?thesis using FORCE_STATE by (simp add: turnConsistent_setState)
next
  case NEXT_TURN
  assume "turnConsistent e"
  then show ?thesis using NEXT_TURN by (simp add: turnConsistent_nextTurn)
qed (auto simp: turnConsistent_def split: option.splits)

lemma turnConsistent_construct: "turnConsistent (construct sp am th)"
  by (simp add: turnConsistent_def construct_def)

lemma turnConsistent_run: "turnConsistent e \<Longrightarrow> turnConsistent (run evs e)"
  by (induction evs arbitrary: e) (auto simp: turnConsistent_send)

text \<open>
  Claim C4, as amended. In every reachable engine state whose phase is
  \<open>STRUCTURED_TURN_TAKING\<close>, either \<open>turnOrder\<close> is empty, \<open>turnIndex\<close> is 0 and there is no
  active speaker, or \<open>0 \<le> turnIndex < turnOrder.length\<close> and \<open>activeSpeaker\<close> is null or
  equals \<open>turnOrder[turnIndex]\<close>. (\<open>turnIndex\<close> is a natural number here, so \<open>0 \<le> turnIndex\<close>
  holds by its type.)
\<close>

theorem structured_turn_invariant:
  "state (run evs (construct sp am th)) = STRUCTURED \<longrightarrow>
     (turnOrder (ctx (run evs (construct sp am th))) = []
        \<and> turnIndex (ctx (run evs (construct sp am th))) = 0
        \<and> activeSpeaker (ctx (run evs (construct sp am th))) = None
      \<or> turnIndex (ctx (run evs (construct sp am th)))
          < length (turnOrder (ctx (run evs (construct sp am th))))
        \<and> (activeSpeaker (ctx (run evs (construct sp am th))) = None
            \<or> activeSpeaker (ctx (run evs (construct sp am th)))
              = Some (turnOrder (ctx (run evs (construct sp am th)))
                      ! turnIndex (ctx (run evs (construct sp am th))))))"
  using turnConsistent_run [OF turnConsistent_construct, of evs sp am th]
  by (auto simp: turnConsistent_def split: option.splits if_splits)

theorem structured_turn_invariant_witness:
  "state (run [FORCE_STATE STRUCTURED, NEXT_TURN] (construct [''A'', ''B''] None None)) = STRUCTURED
   \<and> turnIndex (ctx (run [FORCE_STATE STRUCTURED, NEXT_TURN] (construct [''A'', ''B''] None None))) = 1
   \<and> activeSpeaker (ctx (run [FORCE_STATE STRUCTURED, NEXT_TURN] (construct [''A'', ''B''] None None)))
     = Some ''B''"
  using structured_turn_invariant [of "[FORCE_STATE STRUCTURED, NEXT_TURN]" "[''A'', ''B'']" None None]
  by (simp add: construct_def engine_defs Let_def)

text \<open>
  The claim as stated fails in two reachable states: after \<open>SILENCE\<close> in structured
  turn-taking the active speaker is null and not \<open>turnOrder[turnIndex]\<close>; and an engine
  with no speakers forced into structured turn-taking has an empty \<open>turnOrder\<close>, so
  \<open>turnIndex = 0\<close> is not below its length.
\<close>

theorem structured_turn_invariant_counterexample:
  "state (run [FORCE_STATE STRUCTURED, SILENCE] (construct [''A'', ''B''] None None)) = STRUCTURED
   \<and> activeSpeaker (ctx (run [FORCE_STATE STRUCTURED, SILENCE] (construct [''A'', ''B''] None None)))
     \<noteq> Some (turnOrder (ctx (run [FORCE_STATE STRUCTURED, SILENCE] (construct [''A'', ''B''] None None)))
             ! turnIndex (ctx (run [FORCE_STATE STRUCTURED, SILENCE] (construct [''A'', ''B''] None None))))
   \<and> state (run [FORCE_STATE STRUCTURED] (construct [] None None)) = STRUCTURED
   \<and> \<not> turnIndex (ctx (run [FORCE_STATE STRUCTURED] (construct [] None None)))
       < length (turnOrder (ctx (run [FORCE_STATE STRUCTURED] (construct [] None None))))"
  by (simp add: construct_def engine_defs Let_def)

section \<open>Single events\<close>

subsection \<open>The clock\<close>

lemma totalSeconds_setState:
  "totalSeconds (ctx (setState s e))
   = (if state e = CHECKIN \<and> s = MONITORING then 0 else totalSeconds (ctx e))"
  by (cases s) (auto simp: setState_def Let_def)

lemma state_nextTurn: "state (nextTurn e) = state e \<or> state (nextTurn e) = PAUSE"
  by (simp add: nextTurn_def Let_def)

lemma totalSeconds_nextTurn [simp]: "totalSeconds (ctx (nextTurn e)) = totalSeconds (ctx e)"
  by (simp add: nextTurn_def Let_def totalSeconds_setState)

lemma totalSeconds_autoAdvance:
  "totalSeconds (ctx (autoAdvanceIfNeeded e))
   = (if state e = CHECKIN \<and> state (autoAdvanceIfNeeded e) = MONITORING then 0
      else totalSeconds (ctx e))"
  using state_nextTurn [of e]
  by (cases "state e") (auto simp: autoAdvanceIfNeeded_def Let_def totalSeconds_setState)

text \<open>
  Claim C9, as amended. For every engine state and every event whose seconds, if it is a
  \<open>TICK\<close>, are not negative: \<open>totalSeconds\<close> after the send is at least its value before,
  unless the send moves the phase from \<open>CHECK_IN\<close> to \<open>MONITORING\<close>, in which case
  \<open>totalSeconds\<close> is 0 afterwards.
\<close>

theorem clock_monotone:
  assumes "nonNegativeTick ev"
  shows "if state e = CHECKIN \<and> state (send ev e) = MONITORING
         then totalSeconds (ctx (send ev e)) = 0
         else totalSeconds (ctx e) \<le> totalSeconds (ctx (send ev e))"
proof (cases ev)
  case (TICK dt)
  then have dt: "0 \<le> dt" using assms by (simp add: nonNegativeTick_def)
  show ?thesis using dt unfolding TICK send_TICK
    by (simp add: totalSeconds_autoAdvance)
next
  case (FORCE_STATE s)
  then show ?thesis by (simp add: totalSeconds_setState)
next
  case NEXT_TURN
  then show ?thesis using state_nextTurn [of e] by auto
next
  case (SPEAKER_SET n)
  then show ?thesis by (auto simp: Let_def split: option.splits)
next
  case (REMOVE_SPEAKER n)
  then show ?thesis by (auto simp: Let_def)
next
  case (SET_TALK_TIME n s)
  then show ?thesis by (auto split: option.splits)
qed auto

theorem clock_monotone_witness:
  "nonNegativeTick (TICK 1)
   \<and> totalSeconds (ctx (construct [''A''] None None))
     \<le> totalSeconds (ctx (send (TICK 1) (construct [''A''] None None)))"
proof -
  have h: "nonNegativeTick (TICK 1)" by (simp add: nonNegativeTick_def)
  from clock_monotone [OF h, of "construct [''A''] None None"] h show ?thesis
    by (simp add: construct_def engine_defs Let_def)
qed

text \<open>
  The claim as stated fails in a reachable state on a positive tick: an engine forced
  into \<open>CHECK_IN\<close> at time 0 reads 10 after a tick of 10 seconds, and the next tick of 10
  seconds completes the 20 seconds of the phase, enters \<open>MONITORING\<close> and resets the
  clock to 0.
\<close>

theorem clock_monotone_counterexample:
  "totalSeconds (ctx (run [FORCE_STATE CHECKIN, TICK 10] (construct [''A''] None None))) = 10
   \<and> totalSeconds (ctx (send (TICK 10)
        (run [FORCE_STATE CHECKIN, TICK 10] (construct [''A''] None None)))) = 0"
  by (simp add: construct_def engine_defs Let_def)

subsection \<open>Removing a speaker during structured turn-taking\<close>

lemma remove_frame:
  "state (send (REMOVE_SPEAKER n) e) = state e"
  "turnOrder (ctx (send (REMOVE_SPEAKER n) e)) = turnOrder (ctx e)"
  "turnIndex (ctx (send (REMOVE_SPEAKER n) e)) = turnIndex (ctx e)"
  "turnSince (ctx (send (REMOVE_SPEAKER n) e)) = turnSince (ctx e)"
  "totalSeconds (ctx (send (REMOVE_SPEAKER n) e)) = totalSeconds (ctx e)"
  "autoMode (ctx (send (REMOVE_SPEAKER n) e)) = autoMode (ctx e)"
  "turnHoldSeconds (ctx (send (REMOVE_SPEAKER n) e)) = turnHoldSeconds (ctx e)"
  "speakers (ctx (send (REMOVE_SPEAKER n) e)) = filter (\<lambda>s. s \<noteq> n) (speakers (ctx e))"
  by (simp_all add: Let_def)

lemma nextTurn_advance:
  assumes "state e = STRUCTURED" "turnIndex (ctx e) + 1 < length (turnOrder (ctx e))"
  shows "activeSpeaker (ctx (nextTurn e)) = Some (turnOrder (ctx e) ! (turnIndex (ctx e) + 1))"
    and "speakers (ctx (nextTurn e)) = speakers (ctx e)"
  using assms by (simp_all add: nextTurn_def Let_def)

lemma tick_advances_turn:
  assumes "state e = STRUCTURED" "turnIndex (ctx e) + 1 < length (turnOrder (ctx e))"
    and "autoMode (ctx e)"
    and "turnHoldSeconds (ctx e) \<le> totalSeconds (ctx e) + dt - turnSince (ctx e)"
  shows "activeSpeaker (ctx (send (TICK dt) e)) = Some (turnOrder (ctx e) ! (turnIndex (ctx e) + 1))"
    and "speakers (ctx (send (TICK dt) e)) = speakers (ctx e)"
proof -
  let ?x = "updateMetrics (e\<lparr>ctx := tickCtx dt (ctx e)\<rparr>)"
  have len: "0 < length (turnOrder (ctx e))" using assms(2) by linarith
  have "autoAdvanceIfNeeded ?x = nextTurn ?x"
    using assms len by (simp add: autoAdvanceIfNeeded_def)
  then have eq: "send (TICK dt) e = nextTurn ?x" by (simp only: send_TICK)
  have st: "state ?x = STRUCTURED" using assms(1) by simp
  have ix: "turnIndex (ctx ?x) + 1 < length (turnOrder (ctx ?x))" using assms(2) by simp
  show "activeSpeaker (ctx (send (TICK dt) e)) = Some (turnOrder (ctx e) ! (turnIndex (ctx e) + 1))"
    unfolding eq nextTurn_advance(1) [OF st ix] by simp
  show "speakers (ctx (send (TICK dt) e)) = speakers (ctx e)"
    unfolding eq nextTurn_advance(2) [OF st ix] by simp
qed

text \<open>
  Claim C10. \<open>REMOVE_SPEAKER\<close> changes neither \<open>turnOrder\<close> nor \<open>turnIndex\<close>. So when, in
  structured turn-taking, the removed name stands at position \<open>turnIndex + 1\<close> of
  \<open>turnOrder\<close>, the \<open>NEXT_TURN\<close> that follows the removal makes that name the active speaker
  although it is not among the speakers any more; and so does a \<open>TICK\<close> that follows the
  removal in auto mode and completes \<open>turnHoldSeconds\<close> of the current turn.
\<close>

theorem remove_speaker_keeps_turn_order:
  "turnOrder (ctx (send (REMOVE_SPEAKER n) e)) = turnOrder (ctx e)
   \<and> turnIndex (ctx (send (REMOVE_SPEAKER n) e)) = turnIndex (ctx e)
   \<and> (state e = STRUCTURED \<and> turnIndex (ctx e) + 1 < length (turnOrder (ctx e))
        \<and> turnOrder (ctx e) ! (turnIndex (ctx e) + 1) = n \<longrightarrow>
      activeSpeaker (ctx (send NEXT_TURN (send (REMOVE_SPEAKER n) e))) = Some n
      \<and> n \<notin> set (speakers (ctx (send NEXT_TURN (send (REMOVE_SPEAKER n) e))))
      \<and> (autoMode (ctx e)
           \<and> turnHoldSeconds (ctx e) \<le> totalSeconds (ctx e) + dt - turnSince (ctx e) \<longrightarrow>
         activeSpeaker (ctx (send (TICK dt) (send (REMOVE_SPEAKER n) e))) = Some n
         \<and> n \<notin> set (speakers (ctx (send (TICK dt) (send (REMOVE_SPEAKER n) e))))))"
proof (intro conjI impI)
  let ?r = "send (REMOVE_SPEAKER n) e"
  show "turnOrder (ctx ?r) = turnOrder (ctx e)" by (rule remove_frame)
  show "turnIndex (ctx ?r) = turnIndex (ctx e)" by (rule remove_frame)
  assume h: "state e = STRUCTURED \<and> turnIndex (ctx e) + 1 < length (turnOrder (ctx e))
        \<and> turnOrder (ctx e) ! (turnIndex (ctx e) + 1) = n"
  have st: "state ?r = STRUCTURED" using h by (simp only: remove_frame)
  have ix: "turnIndex (ctx ?r) + 1 < length (turnOrder (ctx ?r))" using h by (simp only: remove_frame)
  have at: "turnOrder (ctx ?r) ! (turnIndex (ctx ?r) + 1) = n" using h by (simp only: remove_frame)
  have gone: "n \<notin> set (speakers (ctx ?r))" by (simp only: remove_frame) simp
  show "activeSpeaker (ctx (send NEXT_TURN ?r)) = Some n"
    using nextTurn_advance(1) [OF st ix] at by simp
  show "n \<notin> set (speakers (ctx (send NEXT_TURN ?r)))"
    using nextTurn_advance(2) [OF st ix] gone by simp
  assume a: "autoMode (ctx e)
           \<and> turnHoldSeconds (ctx e) \<le> totalSeconds (ctx e) + dt - turnSince (ctx e)"
  have am: "autoMode (ctx ?r)" using a by (simp only: remove_frame)
  have hold: "turnHoldSeconds (ctx ?r) \<le> totalSeconds (ctx ?r) + dt - turnSince (ctx ?r)"
    using a by (simp only: remove_frame)
  show "activeSpeaker (ctx (send (TICK dt) ?r)) = Some n"
    using tick_advances_turn(1) [OF st ix am hold] at by simp
  show "n \<notin> set (speakers (ctx (send (TICK dt) ?r)))"
    using tick_advances_turn(2) [OF st ix am hold] gone by simp
qed

lemma structuredAB:
  "send (FORCE_STATE STRUCTURED) (construct [''A'', ''B''] None None)
   = \<lparr>ctx = (ctx (construct [''A'', ''B''] None None))
        \<lparr>turnOrder := [''A'', ''B''], activeSpeaker := Some ''A''\<rparr>, state = STRUCTURED\<rparr>"
  by (simp add: construct_def engine_defs Let_def)

theorem remove_speaker_keeps_turn_order_witness:
  "state (send (FORCE_STATE STRUCTURED) (construct [''A'', ''B''] None None)) = STRUCTURED
   \<and> activeSpeaker (ctx (send NEXT_TURN (send (REMOVE_SPEAKER ''B'')
        (send (FORCE_STATE STRUCTURED) (construct [''A'', ''B''] None None))))) = Some ''B''
   \<and> activeSpeaker (ctx (send (TICK 60) (send (REMOVE_SPEAKER ''B'')
        (send (FORCE_STATE STRUCTURED) (construct [''A'', ''B''] None None))))) = Some ''B''
   \<and> ''B'' \<notin> set (speakers (ctx (send NEXT_TURN (send (REMOVE_SPEAKER ''B'')
        (send (FORCE_STATE STRUCTURED) (construct [''A'', ''B''] None None))))))"
proof -
  let ?e = "send (FORCE_STATE STRUCTURED) (construct [''A'', ''B''] None None)"
  have h: "state ?e = STRUCTURED \<and> turnIndex (ctx ?e) + 1 < length (turnOrder (ctx ?e))
        \<and> turnOrder (ctx ?e) ! (turnIndex (ctx ?e) + 1) = ''B''"
    unfolding structuredAB by (simp add: construct_def)
  have a: "autoMode (ctx ?e)
           \<and> turnHoldSeconds (ctx ?e) \<le> totalSeconds (ctx ?e) + 60 - turnSince (ctx ?e)"
    unfolding structuredAB by (simp add: construct_def)
  from remove_speaker_keeps_turn_order [of "''B''" ?e 60] h a show ?thesis by blast
qed

subsection \<open>Events that do not apply\<close>

lemma unknown_name_no_property:
  assumes "keysWithin e" "name \<notin> set (speakers (ctx e))" "cleanName name"
  shows "getProp (talkTime (ctx e)) name = None"
  using assms by (auto simp: getProp_None keysWithin_iff cleanName_def)

text \<open>
  Claim C8, as amended. These events leave the phase and every field of the context
  unchanged: \<open>SET_TALK_TIME\<close> with a name that is neither a speaker nor the name of a
  member of \<open>Object.prototype\<close>, in every reachable state; \<open>NEXT_TURN\<close> in every phase other
  than \<open>STRUCTURED_TURN_TAKING\<close>; the reserved tags \<open>TURNS_COMPLETE\<close>, \<open>PAUSE_DONE\<close> and
  \<open>CHECKIN\<close> in every state. \<open>SPEAKER_SET\<close> with a name absent from \<open>turnOrder\<close> while in
  \<open>STRUCTURED_TURN_TAKING\<close> leaves the phase and every field unchanged except
  \<open>currentMonologueSeconds\<close>, which it resets to 0 when the name differs from
  \<open>activeSpeaker\<close>.
\<close>

theorem inapplicable_events:
  "(name \<notin> set (speakers (ctx (run evs (construct sp am th)))) \<and> cleanName name \<longrightarrow>
      send (SET_TALK_TIME name secs) (run evs (construct sp am th)) = run evs (construct sp am th))
   \<and> (state e \<noteq> STRUCTURED \<longrightarrow> send NEXT_TURN e = e)
   \<and> (state e = STRUCTURED \<and> name \<notin> set (turnOrder (ctx e)) \<longrightarrow>
        send (SPEAKER_SET name) e
        = e\<lparr>ctx := (ctx e)\<lparr>currentMonologueSeconds :=
              (if activeSpeaker (ctx e) = Some name then currentMonologueSeconds (ctx e) else 0)\<rparr>\<rparr>)
   \<and> send TURNS_COMPLETE e = e \<and> send PAUSE_DONE e = e \<and> send (CHECKIN_EVENT b) e = e"
proof (intro conjI impI)
  let ?r = "run evs (construct sp am th)"
  assume "name \<notin> set (speakers (ctx ?r)) \<and> cleanName name"
  then have "getProp (talkTime (ctx ?r)) name = None"
    by (intro unknown_name_no_property keysWithin_run keysWithin_construct) simp_all
  then show "send (SET_TALK_TIME name secs) ?r = ?r" by simp
next
  assume "state e \<noteq> STRUCTURED"
  then show "send NEXT_TURN e = e" by (simp add: nextTurn_def)
next
  assume "state e = STRUCTURED \<and> name \<notin> set (turnOrder (ctx e))"
  then show "send (SPEAKER_SET name) e
        = e\<lparr>ctx := (ctx e)\<lparr>currentMonologueSeconds :=
              (if activeSpeaker (ctx e) = Some name then currentMonologueSeconds (ctx e) else 0)\<rparr>\<rparr>"
    by (simp add: Let_def indexOf_None [symmetric])
qed simp_all

lemma structuredAB5:
  "run [FORCE_STATE STRUCTURED, TICK 5] (construct [''A'', ''B''] None None)
   = \<lparr>ctx = (ctx (construct [''A'', ''B''] None None))
        \<lparr>turnOrder := [''A'', ''B''], activeSpeaker := Some ''A'',
         talkTime := [(''A'', Num 5), (''B'', Num 0)], totalSeconds := 5,
         totalTalkTime := Number 5, currentMonologueSeconds := 5,
         dominanceScore := Number (2500000 / 5000001)\<rparr>,
      state = STRUCTURED\<rparr>"
  by (simp add: construct_def engine_defs Let_def)

theorem inapplicable_events_witness:
  "send (SET_TALK_TIME ''Z'' 5) (construct [''A'', ''B''] None None) = construct [''A'', ''B''] None None
   \<and> send NEXT_TURN (construct [''A'', ''B''] None None) = construct [''A'', ''B''] None None
   \<and> currentMonologueSeconds (ctx (send (SPEAKER_SET ''Z'')
        (run [FORCE_STATE STRUCTURED, TICK 5] (construct [''A'', ''B''] None None)))) = 0"
proof (intro conjI)
  have "''Z'' \<notin> set (speakers (ctx (run [] (construct [''A'', ''B''] None None))))
        \<and> cleanName ''Z''"
    by (simp add: construct_def cleanName_def inheritedNames_def)
  then show "send (SET_TALK_TIME ''Z'' 5) (construct [''A'', ''B''] None None)
             = construct [''A'', ''B''] None None"
    using inapplicable_events [of "''Z''" "[]" "[''A'', ''B'']" None None 5] by simp
  have "state (construct [''A'', ''B''] None None) \<noteq> STRUCTURED" by (simp add: construct_def)
  then show "send NEXT_TURN (construct [''A'', ''B''] None None) = construct [''A'', ''B''] None None"
    using inapplicable_events [of _ _ _ _ _ _ "construct [''A'', ''B''] None None"] by blast
  let ?e = "run [FORCE_STATE STRUCTURED, TICK 5] (construct [''A'', ''B''] None None)"
  have "state ?e = STRUCTURED \<and> ''Z'' \<notin> set (turnOrder (ctx ?e))"
    unfolding structuredAB5 by simp
  moreover have "activeSpeaker (ctx ?e) \<noteq> Some ''Z''" unfolding structuredAB5 by simp
  ultimately show "currentMonologueSeconds (ctx (send (SPEAKER_SET ''Z'') ?e)) = 0"
    using inapplicable_events [of "''Z''" "[]" "[]" None None 0 ?e] by simp
qed

text \<open>
  The claim as stated fails in two ways. For \<open>SPEAKER_SET\<close>: the engine with speakers A
  and B is forced into structured turn-taking, A talks for 5 seconds, and
  \<open>SPEAKER_SET{Z}\<close>, with Z absent from \<open>turnOrder\<close>, takes \<open>currentMonologueSeconds\<close> from 5
  to 0. For \<open>SET_TALK_TIME\<close>: \<open>constructor\<close> is not a speaker of the new engine with
  speakers A and B, but \<open>talkTime.constructor\<close> is the inherited function and not
  \<open>undefined\<close>, so \<open>SET_TALK_TIME{constructor, 5}\<close> stores a talk time of 5 and leaves
  \<open>totalTalkTime\<close> and \<open>dominanceScore\<close> \<open>NaN\<close>.
\<close>

theorem inapplicable_events_counterexample:
  "state (run [FORCE_STATE STRUCTURED, TICK 5] (construct [''A'', ''B''] None None)) = STRUCTURED
   \<and> ''Z'' \<notin> set (turnOrder (ctx
        (run [FORCE_STATE STRUCTURED, TICK 5] (construct [''A'', ''B''] None None))))
   \<and> currentMonologueSeconds (ctx
        (run [FORCE_STATE STRUCTURED, TICK 5] (construct [''A'', ''B''] None None))) = 5
   \<and> currentMonologueSeconds (ctx (send (SPEAKER_SET ''Z'')
        (run [FORCE_STATE STRUCTURED, TICK 5] (construct [''A'', ''B''] None None)))) = 0
   \<and> ''constructor'' \<notin> set (speakers (ctx (construct [''A'', ''B''] None None)))
   \<and> talkTime (ctx (send (SET_TALK_TIME ''constructor'' 5) (construct [''A'', ''B''] None None)))
     = [(''A'', Num 0), (''B'', Num 0), (''constructor'', Num 5)]
   \<and> totalTalkTime (ctx (send (SET_TALK_TIME ''constructor'' 5)
        (construct [''A'', ''B''] None None))) = NaN
   \<and> dominanceScore (ctx (send (SET_TALK_TIME ''constructor'' 5)
        (construct [''A'', ''B''] None None))) = NaN"
proof -
  have a: "''constructor'' \<notin> set (speakers (ctx (construct [''A'', ''B''] None None)))
   \<and> talkTime (ctx (send (SET_TALK_TIME ''constructor'' 5) (construct [''A'', ''B''] None None)))
     = [(''A'', Num 0), (''B'', Num 0), (''constructor'', Num 5)]
   \<and> totalTalkTime (ctx (send (SET_TALK_TIME ''constructor'' 5)
        (construct [''A'', ''B''] None None))) = NaN
   \<and> dominanceScore (ctx (send (SET_TALK_TIME ''constructor'' 5)
        (construct [''A'', ''B''] None None))) = NaN"
    by (simp add: construct_def engine_defs Let_def)
  show ?thesis unfolding structuredAB5 using a by simp
qed

subsection \<open>What a tick does to the context\<close>












subsection \<open>Recomputation of the metrics\<close>

lemma metricsFresh_updateMetrics: "metricsFresh (updateMetrics e)"
  by (auto simp: metricsFresh_def updateMetrics_def Let_def)

lemma metricsFresh_setState: "metricsFresh e \<Longrightarrow> metricsFresh (setState s e)"
  by (simp add: setState_def Let_def metricsFresh_updateMetrics)

lemma metricsFresh_nextTurn: "metricsFresh e \<Longrightarrow> metricsFresh (nextTurn e)"
proof (cases "state e = STRUCTURED \<and> length (turnOrder (ctx e)) \<le> turnIndex (ctx e) + 1")
  case True
  then have "metricsFresh (setState PAUSE (e\<lparr>ctx := (ctx e)\<lparr>turnIndex := turnIndex (ctx e) + 1\<rparr>\<rparr>))"
    by (simp add: setState_def Let_def metricsFresh_updateMetrics)
  then show ?thesis using True by (simp add: nextTurn_def Let_def)
next
  case False
  assume "metricsFresh e"
  then show ?thesis using False by (auto simp: nextTurn_def Let_def metricsFresh_def)
qed

lemma metricsFresh_imbalanceSince [simp]:
  "metricsFresh (e\<lparr>ctx := (ctx e)\<lparr>imbalanceSince := x\<rparr>\<rparr>) = metricsFresh e"
  by (simp add: metricsFresh_def)

lemma metricsFresh_autoAdvance: "metricsFresh e \<Longrightarrow> metricsFresh (autoAdvanceIfNeeded e)"
  by (cases "state e")
     (auto simp: autoAdvanceIfNeeded_def Let_def metricsFresh_setState metricsFresh_nextTurn)

text \<open>Every event other than \<open>SILENCE\<close> and \<open>SPEAKER_SET\<close> leaves fresh metrics behind when
  it finds them fresh; \<open>TICK\<close>, \<open>REMOVE_SPEAKER\<close>, \<open>SET_SILENCE\<close> and \<open>SET_QUIET_MODE\<close> do so
  in every state.\<close>

lemma metricsFresh_send:
  assumes "metricsFresh e" "ev \<noteq> SILENCE" "\<forall>n. ev \<noteq> SPEAKER_SET n"
  shows "metricsFresh (send ev e)"
proof (cases ev)
  case (TICK dt)
  show ?thesis unfolding TICK send_TICK
    by (intro metricsFresh_autoAdvance metricsFresh_updateMetrics)
next
  case (ADD_SPEAKER n)
  then show ?thesis using assms(1) by (simp add: metricsFresh_updateMetrics)
next
  case (REMOVE_SPEAKER n)
  then show ?thesis by (simp add: Let_def metricsFresh_updateMetrics)
next
  case (SET_TALK_TIME n s)
  then show ?thesis using assms(1) by (simp add: metricsFresh_updateMetrics split: option.splits)
next
  case (SET_SILENCE s)
  then show ?thesis by (simp add: metricsFresh_updateMetrics)
next
  case (SET_QUIET_MODE b)
  then show ?thesis by (simp add: metricsFresh_updateMetrics)
next
  case (FORCE_STATE s)
  then show ?thesis using assms(1) by (simp add: metricsFresh_setState)
next
  case NEXT_TURN
  then show ?thesis using assms(1) by (simp add: metricsFresh_nextTurn)
next
  case (SET_QUIET_SPEAKER n)
  then show ?thesis using assms(1) by (simp add: metricsFresh_def)
next
  case (SET_AUTO_MODE b)
  then show ?thesis using assms(1) by (simp add: metricsFresh_def)
qed (use assms in simp_all)

lemma monologueB:
  "run [SPEAKER_SET ''A'', TICK 10, SPEAKER_SET ''B'', TICK 20] (construct [''A'', ''B''] None None)
   = \<lparr>ctx = (ctx (construct [''A'', ''B''] None None))
        \<lparr>activeSpeaker := Some ''B'', talkTime := [(''A'', Num 10), (''B'', Num 20)],
         totalSeconds := 30, totalTalkTime := Number 30, currentMonologueSeconds := 20,
         imbalanceSince := Some 30, dominanceScore := Number (5000000 / 30000001),
         imbalanceFlag := True\<rparr>,
      state = MONITORING\<rparr>"
  by (simp add: construct_def engine_defs Let_def)

text \<open>
  Claim C6 says that after every mutating event, \<open>SPEAKER_SET\<close> and \<open>SILENCE\<close> included,
  \<open>dominanceScore\<close> is the score of the scorer and \<open>imbalanceFlag\<close> follows the rule of the
  metrics recomputation. The handlers of \<open>SPEAKER_SET\<close> and \<open>SILENCE\<close> reset
  \<open>currentMonologueSeconds\<close>, which the rule reads, and do not recompute. Here A talks for
  10 seconds and B for the next 20: at second 30 the metrics are fresh, the score is
  below the threshold and the flag is up for B's monologue of 20 seconds. \<open>SILENCE\<close> (or
  \<open>SPEAKER_SET{A}\<close>) then resets the monologue to 0 and leaves the flag up, where a
  recomputation gives false.
\<close>

theorem stale_flag_after_silence:
  "metricsFresh (run [SPEAKER_SET ''A'', TICK 10, SPEAKER_SET ''B'', TICK 20]
                     (construct [''A'', ''B''] None None))
   \<and> imbalanceFlag (ctx (send SILENCE
        (run [SPEAKER_SET ''A'', TICK 10, SPEAKER_SET ''B'', TICK 20]
             (construct [''A'', ''B''] None None))))
   \<and> \<not> imbalanceFlag (ctx (updateMetrics (send SILENCE
        (run [SPEAKER_SET ''A'', TICK 10, SPEAKER_SET ''B'', TICK 20]
             (construct [''A'', ''B''] None None)))))
   \<and> \<not> metricsFresh (send SILENCE
        (run [SPEAKER_SET ''A'', TICK 10, SPEAKER_SET ''B'', TICK 20]
             (construct [''A'', ''B''] None None)))
   \<and> \<not> metricsFresh (send (SPEAKER_SET ''A'')
        (run [SPEAKER_SET ''A'', TICK 10, SPEAKER_SET ''B'', TICK 20]
             (construct [''A'', ''B''] None None)))"
  unfolding monologueB
  by (simp add: construct_def metricsFresh_def updateMetrics_def calculateDominanceJS_def
                js_defs Let_def)

subsection \<open>Names of members of \<open>Object.prototype\<close>\<close>

text \<open>What the engine with speakers A and B does with such names. When \<open>toString\<close> is the
  active speaker, a tick takes the talking branch: \<open>talkTime.toString\<close> becomes a string
  and \<open>totalTalkTime\<close> grows. \<open>REMOVE_SPEAKER{toString}\<close> subtracts the inherited function
  from \<open>totalTalkTime\<close>, which becomes \<open>NaN\<close>. A speaker \<open>__proto__\<close> given to the constructor
  gets no entry in \<open>talkTime\<close>, and the score of that engine is \<open>NaN\<close> once there is talk
  time.\<close>

lemma inherited_names:
  "talkTime (ctx (run [SPEAKER_SET ''toString'', TICK 1] (construct [''A'', ''B''] None None)))
     = [(''A'', Num 0), (''B'', Num 0), (''toString'', Str)]
   \<and> totalTalkTime (ctx (run [SPEAKER_SET ''toString'', TICK 1]
        (construct [''A'', ''B''] None None))) = Number 1
   \<and> silenceSeconds (ctx (run [SPEAKER_SET ''toString'', TICK 1]
        (construct [''A'', ''B''] None None))) = 0
   \<and> totalTalkTime (ctx (send (REMOVE_SPEAKER ''toString'')
        (construct [''A'', ''B''] None None))) = NaN
   \<and> talkTime (ctx (construct [''A'', ''__proto__''] None None)) = [(''A'', Num 0)]
   \<and> dominanceScore (ctx (run [SPEAKER_SET ''A'', TICK 1]
        (construct [''A'', ''__proto__''] None None))) = NaN"
  by (simp add: construct_def engine_defs Let_def)

end
